theory Spec2Isabelle
  imports Complex_Main "HOL-Library.Multiset"
begin

chapter \<open>School network monitor: the dashboard client and the monitoring core\<close>

section \<open>Selection lists (events and discovery components)\<close>

text \<open>
  \<^verbatim>\<open>Array.prototype.indexOf\<close>: the index of the first element strictly equal to the
  argument, or \<open>-1\<close> when there is none.
\<close>

fun indexOf :: "'a list \<Rightarrow> 'a \<Rightarrow> int" where
  "indexOf [] x = - 1"
| "indexOf (y # ys) x =
     (if y = x then 0
      else (let i = indexOf ys x in if i > - 1 then i + 1 else - 1))"

text \<open>\<^verbatim>\<open>xs.splice(index, 1)\<close> for an index inside the array: the element there is removed.\<close>

definition splice1 :: "'a list \<Rightarrow> nat \<Rightarrow> 'a list" where
  "splice1 xs index = take index xs @ drop (Suc index) xs"

text \<open>
  \<^verbatim>\<open>EventsComponent.toggleEventSelection(eventId)\<close>; the field \<open>selectedEvents\<close> is passed
  in and the updated array is returned.
\<close>

definition toggleEventSelection :: "string list \<Rightarrow> string \<Rightarrow> string list" where
  "toggleEventSelection selectedEvents eventId =
     (let index = indexOf selectedEvents eventId
      in if index > - 1 then splice1 selectedEvents (nat index)
         else selectedEvents @ [eventId])"

text \<open>\<^verbatim>\<open>DiscoveryComponent.toggleDeviceSelection(ip)\<close>, on the field \<open>selectedDevices\<close>.\<close>

definition toggleDeviceSelection :: "string list \<Rightarrow> string \<Rightarrow> string list" where
  "toggleDeviceSelection selectedDevices ip =
     (let index = indexOf selectedDevices ip
      in if index > - 1 then splice1 selectedDevices (nat index)
         else selectedDevices @ [ip])"


section \<open>JavaScript values\<close>

text \<open>
  The values that reach the error handlers are parsed JSON bodies, strings, \<^verbatim>\<open>Error\<close>
  objects, \<^verbatim>\<open>null\<close> and \<^verbatim>\<open>undefined\<close>. A number is represented by the text that
  \<^verbatim>\<open>Number.prototype.toString\<close> gives it (\<open>''0''\<close> for both zeros, \<open>''NaN''\<close>), which is
  all the code below observes of a number: whether it is truthy and how it prints. An object
  is the list of its own properties, each key once; a lookup takes the first entry of a key.
  Functions and symbols do not occur.
\<close>

datatype jsval =
    JUndefined
  | JNull
  | JBool bool
  | JNum string
  | JStr string
  | JArr "jsval list"
  | JObj "(string \<times> jsval) list"

datatype js_error = TypeError | RangeError

text \<open>\<^verbatim>\<open>ToBoolean\<close>, as used by \<^verbatim>\<open>if\<close>, \<^verbatim>\<open>||\<close> and \<^verbatim>\<open>?:\<close>.\<close>

fun truthy :: "jsval \<Rightarrow> bool" where
  "truthy JUndefined = False"
| "truthy JNull = False"
| "truthy (JBool b) = b"
| "truthy (JNum n) = (n \<noteq> ''0'' \<and> n \<noteq> ''NaN'')"
| "truthy (JStr s) = (s \<noteq> [])"
| "truthy (JArr xs) = True"
| "truthy (JObj kvs) = True"

text \<open>\<^verbatim>\<open>a || b\<close> on values that are already evaluated.\<close>

definition js_or :: "jsval \<Rightarrow> jsval \<Rightarrow> jsval" where
  "js_or a b = (if truthy a then a else b)"

text \<open>
  The property read \<^verbatim>\<open>v.p\<close>, for the names the handlers read (\<^verbatim>\<open>error\<close>, \<^verbatim>\<open>detail\<close>,
  \<^verbatim>\<open>message\<close>, \<^verbatim>\<open>msg\<close>, \<^verbatim>\<open>is_alive\<close>, \<^verbatim>\<open>response_time_ms\<close>): none of them is on
  a built-in prototype of plain data, so only an object's own property can answer. Reading a
  property of \<^verbatim>\<open>null\<close> or \<^verbatim>\<open>undefined\<close> throws a TypeError.
\<close>

fun get_prop :: "jsval \<Rightarrow> string \<Rightarrow> js_error + jsval" where
  "get_prop JUndefined p = Inl TypeError"
| "get_prop JNull p = Inl TypeError"
| "get_prop (JObj kvs) p = Inr (case map_of kvs p of Some v \<Rightarrow> v | None \<Rightarrow> JUndefined)"
| "get_prop v p = Inr JUndefined"

text \<open>Optional chaining \<^verbatim>\<open>v?.p\<close>: \<^verbatim>\<open>undefined\<close> when \<open>v\<close> is \<^verbatim>\<open>null\<close> or \<^verbatim>\<open>undefined\<close>.\<close>

fun opt_chain :: "jsval \<Rightarrow> string \<Rightarrow> jsval" where
  "opt_chain (JObj kvs) p = (case map_of kvs p of Some v \<Rightarrow> v | None \<Rightarrow> JUndefined)"
| "opt_chain v p = JUndefined"

fun is_string :: "jsval \<Rightarrow> bool" where
  "is_string (JStr s) = True"
| "is_string v = False"

fun isArray :: "jsval \<Rightarrow> bool" where
  "isArray (JArr xs) = True"
| "isArray v = False"

text \<open>\<^verbatim>\<open>typeof v === 'object'\<close>, which holds of \<^verbatim>\<open>null\<close>, of arrays and of objects.\<close>

fun typeof_object :: "jsval \<Rightarrow> bool" where
  "typeof_object JNull = True"
| "typeof_object (JArr xs) = True"
| "typeof_object (JObj kvs) = True"
| "typeof_object v = False"

text \<open>
  \<^verbatim>\<open>ToString\<close> and \<^verbatim>\<open>Array.prototype.join\<close>. An array prints as its elements joined by a
  comma; \<^verbatim>\<open>join\<close> prints \<^verbatim>\<open>null\<close> and \<^verbatim>\<open>undefined\<close> elements as the empty string. A
  plain object prints as \<^verbatim>\<open>[object Object]\<close> through \<^verbatim>\<open>Object.prototype.toString\<close>; an
  own data property named \<^verbatim>\<open>toString\<close> hides that method and, not being callable, leaves
  the conversion with a TypeError.
\<close>

fun ToString :: "jsval \<Rightarrow> js_error + string"
  and join :: "string \<Rightarrow> jsval list \<Rightarrow> js_error + string"
  and join_elem :: "jsval \<Rightarrow> js_error + string"
where
  "ToString JUndefined = Inr ''undefined''"
| "ToString JNull = Inr ''null''"
| "ToString (JBool b) = Inr (if b then ''true'' else ''false'')"
| "ToString (JNum n) = Inr n"
| "ToString (JStr s) = Inr s"
| "ToString (JArr xs) = join '','' xs"
| "ToString (JObj kvs) =
     (if ''toString'' \<in> set (map fst kvs) then Inl TypeError else Inr ''[object Object]'')"
| "join sep [] = Inr []"
| "join sep [x] = join_elem x"
| "join sep (x # y # ys) =
     (case join_elem x of
        Inl e \<Rightarrow> Inl e
      | Inr s \<Rightarrow> (case join sep (y # ys) of Inl e \<Rightarrow> Inl e | Inr r \<Rightarrow> Inr (s @ sep @ r)))"
| "join_elem JUndefined = Inr []"
| "join_elem JNull = Inr []"
| "join_elem (JBool b) = ToString (JBool b)"
| "join_elem (JNum n) = ToString (JNum n)"
| "join_elem (JStr s) = ToString (JStr s)"
| "join_elem (JArr xs) = ToString (JArr xs)"
| "join_elem (JObj kvs) = ToString (JObj kvs)"

text \<open>\<^verbatim>\<open>xs.map(f)\<close> for a callback that may throw: the first exception ends the loop.\<close>

fun map_throwing :: "('a \<Rightarrow> js_error + 'b) \<Rightarrow> 'a list \<Rightarrow> js_error + 'b list" where
  "map_throwing f [] = Inr []"
| "map_throwing f (x # xs) =
     (case f x of
        Inl e \<Rightarrow> Inl e
      | Inr y \<Rightarrow> (case map_throwing f xs of Inl e \<Rightarrow> Inl e | Inr ys \<Rightarrow> Inr (y # ys)))"

text \<open>The decimal text of a non-negative integer, as a template literal prints it.\<close>

fun dec :: "nat \<Rightarrow> string" where
  "dec n = (if n < 10 then [''0123456789'' ! n] else dec (n div 10) @ [''0123456789'' ! (n mod 10)])"

declare dec.simps [simp del]


section \<open>Notification service\<close>

datatype NotificationType = T_success | T_error | T_warning | T_info

text \<open>
  The \<^verbatim>\<open>Notification\<close> interface. The message is declared a string, but
  \<^verbatim>\<open>showApiError\<close> passes whatever it extracted from a value of type \<^verbatim>\<open>any\<close>, so the
  field holds a JavaScript value. The optional \<^verbatim>\<open>action\<close> is never set on this path.
\<close>

record Notification =
  id_field :: string
  ntype :: NotificationType
  title :: "string option"
  message :: jsval
  duration :: "nat option"

text \<open>
  The service's state: the counter behind the ids and, in order, the notifications handed
  to \<^verbatim>\<open>notificationSubject.next\<close>.
\<close>

record NotificationService =
  idCounter :: nat
  emitted :: "Notification list"

definition show_notification ::
  "NotificationService \<Rightarrow> NotificationType \<Rightarrow> jsval \<Rightarrow> string option \<Rightarrow> nat option
     \<Rightarrow> NotificationService" where
  "show_notification svc t msg ttl dur =
     svc\<lparr> idCounter := idCounter svc + 1,
          emitted := emitted svc @
            [\<lparr> id_field = ''notification-'' @ dec (idCounter svc), ntype = t, title = ttl,
               message = msg, duration = dur \<rparr>] \<rparr>"

text \<open>
  \<^verbatim>\<open>success\<close>, \<^verbatim>\<open>error\<close>, \<^verbatim>\<open>warning\<close> and \<^verbatim>\<open>info\<close>, with their default durations
  written out at the call (no caller passes a duration).
\<close>

definition notify_success :: "NotificationService \<Rightarrow> jsval \<Rightarrow> string option \<Rightarrow> NotificationService" where
  "notify_success svc msg ttl = show_notification svc T_success msg ttl (Some 3000)"

definition notify_error :: "NotificationService \<Rightarrow> jsval \<Rightarrow> string option \<Rightarrow> NotificationService" where
  "notify_error svc msg ttl = show_notification svc T_error msg ttl (Some 5000)"

definition notify_warning :: "NotificationService \<Rightarrow> jsval \<Rightarrow> string option \<Rightarrow> NotificationService" where
  "notify_warning svc msg ttl = show_notification svc T_warning msg ttl (Some 4000)"

definition notify_info :: "NotificationService \<Rightarrow> jsval \<Rightarrow> string option \<Rightarrow> NotificationService" where
  "notify_info svc msg ttl = show_notification svc T_info msg ttl (Some 3000)"

text \<open>The callback \<^verbatim>\<open>(d: any) => d.msg || d\<close> of \<^verbatim>\<open>showApiError\<close>.\<close>

definition detail_item :: "jsval \<Rightarrow> js_error + jsval" where
  "detail_item d = (case get_prop d ''msg'' of Inl e \<Rightarrow> Inl e | Inr m \<Rightarrow> Inr (js_or m d))"

text \<open>
  The message that \<^verbatim>\<open>showApiError\<close> computes before it calls \<^verbatim>\<open>this.error\<close>; an
  exception thrown on the way is the result \<open>Inl\<close>.
\<close>

definition api_error_message :: "jsval \<Rightarrow> js_error + jsval" where
  "api_error_message error =
     (let detail = opt_chain (opt_chain error ''error'') ''detail''
      in if truthy detail then
           (if is_string detail then Inr detail
            else (case detail of
                    JArr ds \<Rightarrow>
                      (case map_throwing detail_item ds of
                         Inl e \<Rightarrow> Inl e
                       | Inr items \<Rightarrow>
                           (case join '', '' items of Inl e \<Rightarrow> Inl e | Inr s \<Rightarrow> Inr (JStr s)))
                  | _ \<Rightarrow> Inr (JStr ''An error occurred'')))
         else if truthy (opt_chain error ''message'') then Inr (opt_chain error ''message'')
         else if is_string error then Inr error
         else Inr (JStr ''An error occurred''))"

text \<open>\<^verbatim>\<open>NotificationService.showApiError(error)\<close>.\<close>

definition showApiError :: "NotificationService \<Rightarrow> jsval \<Rightarrow> js_error + NotificationService" where
  "showApiError svc error =
     (case api_error_message error of
        Inl e \<Rightarrow> Inl e
      | Inr msg \<Rightarrow> Inr (notify_error svc msg (Some ''Error'')))"

text \<open>
  Two conditions on the input of \<^verbatim>\<open>showApiError\<close>, used to say exactly when it yields a
  notification with text. The first: an item of an array detail is usable when the callback
  \<^verbatim>\<open>d.msg || d\<close> has a value for it (the item is neither \<^verbatim>\<open>null\<close> nor \<^verbatim>\<open>undefined\<close>)
  and \<^verbatim>\<open>join\<close> can print that value; a detail is usable when it is not an array or all its
  items are.
\<close>

definition item_usable :: "jsval \<Rightarrow> bool" where
  "item_usable d =
     (case detail_item d of
        Inl e \<Rightarrow> False
      | Inr v \<Rightarrow> (case join_elem v of Inl e \<Rightarrow> False | Inr s \<Rightarrow> True))"

definition detail_usable :: "jsval \<Rightarrow> bool" where
  "detail_usable error =
     (case opt_chain (opt_chain error ''error'') ''detail'' of
        JArr ds \<Rightarrow> list_all item_usable ds
      | _ \<Rightarrow> True)"

text \<open>
  The second: a value prints as text when \<^verbatim>\<open>ToString\<close> gives it a non-empty string, and
  the message extracted from an input is empty in three cases only: the input is the empty
  string; the detail is the empty array or an array of one item that \<^verbatim>\<open>join\<close> prints as the
  empty string; there is no truthy detail and the \<^verbatim>\<open>message\<close> property is truthy but does
  not print as text (the empty array, for one).
\<close>

definition prints_text :: "jsval \<Rightarrow> bool" where
  "prints_text v = (case ToString v of Inl e \<Rightarrow> False | Inr s \<Rightarrow> s \<noteq> [])"

definition item_prints_empty :: "jsval \<Rightarrow> bool" where
  "item_prints_empty d =
     (case detail_item d of Inl e \<Rightarrow> False | Inr v \<Rightarrow> join_elem v = Inr [])"

definition empty_message_input :: "jsval \<Rightarrow> bool" where
  "empty_message_input error =
     (error = JStr []
      \<or> (case opt_chain (opt_chain error ''error'') ''detail'' of
            JArr ds \<Rightarrow> (case ds of [] \<Rightarrow> True | [d] \<Rightarrow> item_prints_empty d | _ \<Rightarrow> False)
          | _ \<Rightarrow> False)
      \<or> (\<not> truthy (opt_chain (opt_chain error ''error'') ''detail'')
          \<and> truthy (opt_chain error ''message'')
          \<and> \<not> prints_text (opt_chain error ''message'')))"


section \<open>HTTP error interceptors\<close>

text \<open>
  \<^verbatim>\<open>JSON.stringify\<close> on plain data. A string is quoted with the escapes of the standard;
  \<^verbatim>\<open>undefined\<close> has no JSON text: it prints as \<^verbatim>\<open>null\<close> inside an array and its
  property is left out of an object. Non-finite numbers print as \<^verbatim>\<open>null\<close>.
\<close>

definition hex_digit :: "nat \<Rightarrow> char" where
  "hex_digit n = ''0123456789abcdef'' ! (n mod 16)"

definition json_quote_char :: "char \<Rightarrow> string" where
  "json_quote_char c =
     (let n = (of_char c :: nat)
      in if n = 34 then [CHR 0x5C, CHR 0x22]
         else if n = 92 then [CHR 0x5C, CHR 0x5C]
         else if n = 8 then [CHR 0x5C, CHR ''b'']
         else if n = 9 then [CHR 0x5C, CHR ''t'']
         else if n = 10 then [CHR 0x5C, CHR ''n'']
         else if n = 12 then [CHR 0x5C, CHR ''f'']
         else if n = 13 then [CHR 0x5C, CHR ''r'']
         else if n < 32 then [CHR 0x5C, CHR ''u'', CHR ''0'', CHR ''0'', hex_digit (n div 16), hex_digit n]
         else [c])"

definition json_quote :: "string \<Rightarrow> string" where
  "json_quote s = [CHR 0x22] @ concat (map json_quote_char s) @ [CHR 0x22]"

fun sep_concat :: "string \<Rightarrow> string list \<Rightarrow> string" where
  "sep_concat sep [] = []"
| "sep_concat sep [x] = x"
| "sep_concat sep (x # y # ys) = x @ sep @ sep_concat sep (y # ys)"

fun json_text :: "jsval \<Rightarrow> string option"
  and json_items :: "jsval list \<Rightarrow> string list"
  and json_members :: "(string \<times> jsval) list \<Rightarrow> string list"
where
  "json_text JUndefined = None"
| "json_text JNull = Some ''null''"
| "json_text (JBool b) = Some (if b then ''true'' else ''false'')"
| "json_text (JNum n) =
     Some (if n = ''NaN'' \<or> n = ''Infinity'' \<or> n = ''-Infinity'' then ''null'' else n)"
| "json_text (JStr s) = Some (json_quote s)"
| "json_text (JArr xs) = Some (''['' @ sep_concat '','' (json_items xs) @ '']'')"
| "json_text (JObj kvs) = Some (''{'' @ sep_concat '','' (json_members kvs) @ ''}'')"
| "json_items [] = []"
| "json_items (x # xs) = (case json_text x of None \<Rightarrow> ''null'' | Some t \<Rightarrow> t) # json_items xs"
| "json_members [] = []"
| "json_members ((k, v) # kvs) =
     (case json_text v of
        None \<Rightarrow> json_members kvs
      | Some t \<Rightarrow> (json_quote k @ '':'' @ t) # json_members kvs)"

text \<open>
  Angular's \<^verbatim>\<open>HttpErrorResponse\<close>, with the fields the interceptors read. The field
  \<^verbatim>\<open>error\<close> is either a browser \<^verbatim>\<open>ErrorEvent\<close> (a client-side or network failure, with
  its message) or the parsed body of the server's response; \<^verbatim>\<open>message\<close> is Angular's own
  summary line.
\<close>

datatype http_error_body = ErrorEvent string | Body jsval

record HttpErrorResponse =
  status :: nat
  statusText :: string
  error_field :: http_error_body
  message_field :: string

text \<open>
  The same response as the JavaScript object a subscriber sees when nothing replaces it on the
  way.
\<close>

definition response_value :: "HttpErrorResponse \<Rightarrow> jsval" where
  "response_value r =
     JObj [(''status'', JNum (dec (status r))),
           (''statusText'', JStr (statusText r)),
           (''error'', (case error_field r of
                          ErrorEvent m \<Rightarrow> JObj [(''message'', JStr m)]
                        | Body b \<Rightarrow> b)),
           (''message'', JStr (message_field r))]"

text \<open>
  \<^verbatim>\<open>AuthInterceptor\<close>, the inner interceptor: on 401 it drops the stored token and
  navigates to the login page; the error itself is rethrown as it came.
\<close>

record AuthState =
  access_token :: "string option"
  navigations :: "string list"

definition auth_catchError :: "AuthState \<Rightarrow> HttpErrorResponse \<Rightarrow> AuthState \<times> HttpErrorResponse" where
  "auth_catchError st r =
     ((if status r = 401
       then st\<lparr> access_token := None, navigations := navigations st @ [''/login''] \<rparr>
       else st), r)"

text \<open>The callback \<^verbatim>\<open>(d: any) => d.msg || d.message || d\<close> of the error interceptor.\<close>

definition interceptor_item :: "jsval \<Rightarrow> js_error + jsval" where
  "interceptor_item d =
     (case get_prop d ''msg'' of
        Inl e \<Rightarrow> Inl e
      | Inr m \<Rightarrow>
          if truthy m then Inr m
          else (case get_prop d ''message'' of Inl e \<Rightarrow> Inl e | Inr m' \<Rightarrow> Inr (js_or m' d)))"

text \<open>The local \<^verbatim>\<open>errorMessage\<close> of \<^verbatim>\<open>ErrorInterceptor.intercept\<close>, once it is computed.\<close>

definition errorMessage_of :: "HttpErrorResponse \<Rightarrow> js_error + jsval" where
  "errorMessage_of r =
     (case error_field r of
        ErrorEvent m \<Rightarrow> Inr (JStr (''Error: '' @ m))
      | Body b \<Rightarrow>
          (let detail = opt_chain b ''detail''
           in if truthy detail then
                (if is_string detail then Inr detail
                 else (case detail of
                         JArr ds \<Rightarrow>
                           (case map_throwing interceptor_item ds of
                              Inl e \<Rightarrow> Inl e
                            | Inr items \<Rightarrow>
                                (case join '', '' items of
                                   Inl e \<Rightarrow> Inl e
                                 | Inr s \<Rightarrow> Inr (JStr s)))
                       | _ \<Rightarrow>
                           if typeof_object detail
                           then Inr (case json_text detail of Some t \<Rightarrow> JStr t | None \<Rightarrow> JUndefined)
                           else Inr (JStr ''An unknown error occurred'')))
              else if truthy (opt_chain b ''message'') then Inr (opt_chain b ''message'')
              else if message_field r \<noteq> [] then Inr (JStr (message_field r))
              else Inr (JStr (''Server Error: '' @ dec (status r) @ '' - '' @ statusText r))))"

text \<open>
  The \<^verbatim>\<open>catchError\<close> handler of \<^verbatim>\<open>ErrorInterceptor.intercept\<close>: the notification chosen
  by the status code, and the value the subscriber's error callback receives, which is a new
  \<^verbatim>\<open>Error\<close> whose message is the text of \<^verbatim>\<open>errorMessage\<close>. An \<^verbatim>\<open>Error\<close> object is the
  object with that one property (\<^verbatim>\<open>new Error(undefined)\<close> sets none). An exception
  thrown inside the handler reaches the subscriber in place of it (\<open>Inl\<close>).
\<close>

definition intercept_catchError ::
  "NotificationService \<Rightarrow> HttpErrorResponse \<Rightarrow> NotificationService \<times> (js_error + jsval)" where
  "intercept_catchError svc r =
     (case errorMessage_of r of
        Inl e \<Rightarrow> (svc, Inl e)
      | Inr errorMessage \<Rightarrow>
          ((if status r \<ge> 500 then notify_error svc errorMessage (Some ''Server Error'')
            else if status r = 404
              then notify_warning svc (JStr ''Resource not found'') (Some ''Not Found'')
            else if status r = 403
              then notify_warning svc
                     (JStr ''You don't have permission to perform this action'') (Some ''Forbidden'')
            else if status r = 409 then notify_warning svc errorMessage (Some ''Conflict'')
            else if status r = 400 then notify_warning svc errorMessage (Some ''Invalid Request'')
            else svc),
           (if errorMessage = JUndefined then Inr (JObj [])
            else (case ToString errorMessage of
                    Inl e \<Rightarrow> Inl e
                  | Inr s \<Rightarrow> Inr (JObj [(''message'', JStr s)])))))"

text \<open>
  The two interceptors in the order of \<^verbatim>\<open>app.module.ts\<close>: the error interceptor is
  provided first, so a failed response passes the auth interceptor and then the error
  interceptor on its way back to the caller.
\<close>

definition http_error_path ::
  "AuthState \<Rightarrow> NotificationService \<Rightarrow> HttpErrorResponse
     \<Rightarrow> AuthState \<times> NotificationService \<times> (js_error + jsval)" where
  "http_error_path st svc r =
     (case auth_catchError st r of
        (st', r') \<Rightarrow> (case intercept_catchError svc r' of (svc', thrown) \<Rightarrow> (st', svc', thrown)))"


section \<open>Pagination\<close>

text \<open>
  The numbers of the pagination code. Totals and page sizes are counts (array lengths and the
  field \<^verbatim>\<open>pageSize\<close>), non-negative integers far below \<open>2^53\<close>, on which the division
  of doubles followed by \<^verbatim>\<open>Math.ceil\<close> is the exact ceiling of the quotient. Dividing by
  zero gives \<^verbatim>\<open>Infinity\<close>, or \<^verbatim>\<open>NaN\<close> for \<^verbatim>\<open>0 / 0\<close>.
\<close>

datatype js_number = Num int | Infinity | NaN

definition Math_ceil_div :: "nat \<Rightarrow> nat \<Rightarrow> js_number" where
  "Math_ceil_div a b =
     (if b = 0 then (if a = 0 then NaN else Infinity)
      else Num \<lceil>real a / real b\<rceil>)"

text \<open>\<^verbatim>\<open>Math.max(1, x)\<close>.\<close>

fun Math_max_1 :: "js_number \<Rightarrow> js_number" where
  "Math_max_1 (Num n) = Num (max 1 n)"
| "Math_max_1 Infinity = Infinity"
| "Math_max_1 NaN = NaN"

text \<open>The getter \<^verbatim>\<open>EventsComponent.totalPages\<close>, from \<^verbatim>\<open>totalEvents\<close> and \<^verbatim>\<open>pageSize\<close>.\<close>

definition totalPages_events :: "nat \<Rightarrow> nat \<Rightarrow> js_number" where
  "totalPages_events totalEvents pageSize =
     (if totalEvents = 0 then Num 1
      else Math_max_1 (Math_ceil_div totalEvents pageSize))"

text \<open>
  \<^verbatim>\<open>DevicesComponent.calculatePagination\<close> on the component's pagination fields.
  \<^verbatim>\<open>Array.from({ length: n }, (_, i) => i + 1)\<close> is the array \<open>1, \<dots>, n\<close>; a length of
  \<^verbatim>\<open>NaN\<close> counts as zero, and a length of \<open>2^32\<close> or more (so also \<^verbatim>\<open>Infinity\<close>) raises a
  RangeError, after \<^verbatim>\<open>totalPages\<close> has been assigned.
\<close>

record DevicesPaging =
  totalDevices :: nat
  pageSize :: nat
  totalPages :: js_number
  pages :: "int list"

definition calculatePagination :: "DevicesPaging \<Rightarrow> (js_error \<times> DevicesPaging) + DevicesPaging" where
  "calculatePagination c =
     (let c' = c\<lparr> totalPages := Math_ceil_div (totalDevices c) (pageSize c) \<rparr>
      in case totalPages c' of
           Num n \<Rightarrow>
             if n < 2 ^ 32 then Inr (c'\<lparr> pages := map (\<lambda>i. int i + 1) [0..<nat n] \<rparr>)
             else Inl (RangeError, c')
         | Infinity \<Rightarrow> Inl (RangeError, c')
         | NaN \<Rightarrow> Inr (c'\<lparr> pages := [] \<rparr>))"

text \<open>
  Modelled from the spec: the paginated list operation of the REST collections, which the
  backend implements and which is not under \<^verbatim>\<open>src/\<close>. The spec (sections 6 and 8) and the
  API reference give a request a page number, counted from 1, and a page size; page \<open>p\<close>
  holds the items after the first \<open>(p - 1) * page_size\<close>, at most \<open>page_size\<close> of them.
  A page number or page size of zero is outside what they describe and gets no result.
\<close>

definition list_page :: "nat \<Rightarrow> nat \<Rightarrow> 'a list \<Rightarrow> 'a list option" where
  "list_page page page_size items =
     (if page = 0 \<or> page_size = 0 then None
      else Some (take page_size (drop ((page - 1) * page_size) items)))"


section \<open>Push channel client (WebsocketService)\<close>

datatype ConnectionStatus = CONNECTED | DISCONNECTED | CONNECTING | RECONNECTING | ERROR

text \<open>The message envelope \<^verbatim>\<open>WebSocketMessage\<close>; the type tag is a string at run time.\<close>

record WebSocketMessage =
  msg_type :: string
  data :: jsval
  timestamp :: "string option"

text \<open>The settings \<^verbatim>\<open>environment.websocket\<close>, in milliseconds and attempts.\<close>

record WebsocketConfig =
  reconnectInterval :: nat
  maxReconnectAttempts :: nat
  heartbeatInterval :: nat

text \<open>
  A pending \<^verbatim>\<open>setTimeout\<close> of the service with its delay in milliseconds: the callback of
  \<^verbatim>\<open>reconnect\<close>, which connects unless the disconnect was manual, or the callback of
  \<^verbatim>\<open>reconnectManually\<close>, which connects. The delay
  \<^verbatim>\<open>reconnectInterval * Math.pow(1.5, n - 1)\<close> is kept as an exact rational; for the
  configured interval and attempt bound it is exactly what the double arithmetic gives.
\<close>

datatype timer = ReconnectTimer rat | ManualTimer rat

text \<open>
  The service's state. \<open>socket\<close> is the field \<^verbatim>\<open>socket$\<close> (\<open>None\<close> for \<^verbatim>\<open>null\<close>, else
  the subject's \<^verbatim>\<open>closed\<close> flag); \<open>statusLog\<close> and \<open>messagesLog\<close> are the values handed
  to \<^verbatim>\<open>connectionStatusSubject$\<close> and \<^verbatim>\<open>messagesSubject$\<close>, in order; \<open>sent\<close> are the
  values handed to \<^verbatim>\<open>socket$.next\<close>; \<open>connects\<close> counts the sockets created by
  \<^verbatim>\<open>webSocket(...)\<close>, each of which is one connection attempt; \<open>heartbeatTimer\<close> tells
  whether the interval timer is set.
\<close>

record WebsocketService =
  socket :: "bool option"
  reconnectAttempts :: nat
  isManualDisconnect :: bool
  heartbeatTimer :: bool
  statusLog :: "ConnectionStatus list"
  messagesLog :: "WebSocketMessage list"
  sent :: "jsval list"
  timers :: "timer list"
  connects :: nat

text \<open>\<^verbatim>\<open>isConnected()\<close>: \<^verbatim>\<open>socket$ !== null && !socket$.closed\<close>.\<close>

definition isConnected :: "WebsocketService \<Rightarrow> bool" where
  "isConnected ws = (case socket ws of None \<Rightarrow> False | Some is_closed \<Rightarrow> \<not> is_closed)"

text \<open>\<^verbatim>\<open>connect()\<close>: nothing when a socket is there and not closed; else a new socket.\<close>

definition connect :: "WebsocketService \<Rightarrow> WebsocketService" where
  "connect ws =
     (if isConnected ws then ws
      else ws\<lparr> statusLog := statusLog ws @ [CONNECTING],
               socket := Some False,
               connects := connects ws + 1 \<rparr>)"

text \<open>\<^verbatim>\<open>reconnect()\<close>.\<close>

definition reconnect :: "WebsocketConfig \<Rightarrow> WebsocketService \<Rightarrow> WebsocketService" where
  "reconnect cfg ws =
     (if reconnectAttempts ws \<ge> maxReconnectAttempts cfg
      then ws\<lparr> statusLog := statusLog ws @ [ERROR] \<rparr>
      else
        (let attempts = reconnectAttempts ws + 1;
             delay = of_nat (reconnectInterval cfg) * (3 / 2) ^ (attempts - 1)
         in ws\<lparr> reconnectAttempts := attempts,
                 statusLog := statusLog ws @ [RECONNECTING],
                 timers := timers ws @ [ReconnectTimer delay] \<rparr>))"

text \<open>The observers that \<^verbatim>\<open>connect()\<close> gives the socket, and the stream's handlers.\<close>

definition openObserver :: "WebsocketService \<Rightarrow> WebsocketService" where
  "openObserver ws =
     ws\<lparr> statusLog := statusLog ws @ [CONNECTED],
          reconnectAttempts := 0,
          isManualDisconnect := False \<rparr>"

definition closeObserver :: "WebsocketConfig \<Rightarrow> WebsocketService \<Rightarrow> WebsocketService" where
  "closeObserver cfg ws =
     (let ws' = ws\<lparr> statusLog := statusLog ws @ [DISCONNECTED], socket := None \<rparr>
      in if \<not> isManualDisconnect ws' then reconnect cfg ws' else ws')"

definition on_message :: "WebsocketService \<Rightarrow> WebSocketMessage \<Rightarrow> WebsocketService" where
  "on_message ws m = ws\<lparr> messagesLog := messagesLog ws @ [m] \<rparr>"

text \<open>
  The \<^verbatim>\<open>catchError\<close> of the stream: it reports the status and ends the stream, so the
  \<^verbatim>\<open>error\<close> callback of the subscription below it never runs.
\<close>

definition on_error :: "WebsocketService \<Rightarrow> WebsocketService" where
  "on_error ws = ws\<lparr> statusLog := statusLog ws @ [ERROR] \<rparr>"

text \<open>A timer fires: it leaves the pending list and its callback runs.\<close>

definition fire_timer :: "nat \<Rightarrow> WebsocketService \<Rightarrow> WebsocketService" where
  "fire_timer i ws =
     (if i < length (timers ws) then
        (let ws' = ws\<lparr> timers := take i (timers ws) @ drop (Suc i) (timers ws) \<rparr>
         in case timers ws ! i of
              ReconnectTimer d \<Rightarrow> if \<not> isManualDisconnect ws' then connect ws' else ws'
            | ManualTimer d \<Rightarrow> connect ws')
      else ws)"

text \<open>\<^verbatim>\<open>stopHeartbeat()\<close>, \<^verbatim>\<open>disconnect()\<close>, \<^verbatim>\<open>reconnectManually()\<close>, \<^verbatim>\<open>resetReconnectAttempts()\<close>.\<close>

definition stopHeartbeat :: "WebsocketService \<Rightarrow> WebsocketService" where
  "stopHeartbeat ws = ws\<lparr> heartbeatTimer := False \<rparr>"

definition disconnect :: "WebsocketService \<Rightarrow> WebsocketService" where
  "disconnect ws =
     (let ws' = stopHeartbeat (ws\<lparr> isManualDisconnect := True \<rparr>)
      in ws'\<lparr> socket := None, statusLog := statusLog ws' @ [DISCONNECTED] \<rparr>)"

definition reconnectManually :: "WebsocketService \<Rightarrow> WebsocketService" where
  "reconnectManually ws =
     (let ws' = disconnect ws
      in ws'\<lparr> isManualDisconnect := False, reconnectAttempts := 0,
              timers := timers ws' @ [ManualTimer 1000] \<rparr>)"

definition resetReconnectAttempts :: "WebsocketService \<Rightarrow> WebsocketService" where
  "resetReconnectAttempts ws = ws\<lparr> reconnectAttempts := 0 \<rparr>"

text \<open>\<^verbatim>\<open>send(message)\<close>: the message goes to the socket when there is one that is not closed.\<close>

definition send :: "WebsocketService \<Rightarrow> jsval \<Rightarrow> WebsocketService" where
  "send ws m = (if isConnected ws then ws\<lparr> sent := sent ws @ [m] \<rparr> else ws)"

text \<open>\<^verbatim>\<open>sendPing()\<close>; the argument is the text of \<^verbatim>\<open>new Date().toISOString()\<close>.\<close>

definition sendPing :: "string \<Rightarrow> WebsocketService \<Rightarrow> WebsocketService" where
  "sendPing now ws =
     send ws (JObj [(''type'', JStr ''PING''), (''data'', JObj [(''timestamp'', JStr now)])])"

text \<open>The heartbeat interval's callback.\<close>

definition heartbeat_tick :: "string \<Rightarrow> WebsocketService \<Rightarrow> WebsocketService" where
  "heartbeat_tick now ws = (if heartbeatTimer ws \<and> isConnected ws then sendPing now ws else ws)"

text \<open>
  \<^verbatim>\<open>getMessagesByType(type)\<close>: the subscriber's \<^verbatim>\<open>next\<close> handler on \<^verbatim>\<open>messages$\<close>, which
  passes the payload on when the type tag matches, and the values the observer has received
  after a sequence of messages.
\<close>

definition byType_next :: "string \<Rightarrow> jsval list \<Rightarrow> WebSocketMessage \<Rightarrow> jsval list" where
  "byType_next t observed m = (if msg_type m = t then observed @ [data m] else observed)"

definition getMessagesByType :: "string \<Rightarrow> WebSocketMessage list \<Rightarrow> jsval list" where
  "getMessagesByType t msgs = foldl (byType_next t) [] msgs"

text \<open>
  What happens to the service between two calls of its API: the socket opens, closes, fails
  or delivers a message, one of the pending timers fires, or the heartbeat ticks.
\<close>

datatype ws_event =
    EvOpen
  | EvClose
  | EvError
  | EvMessage WebSocketMessage
  | EvTimer nat
  | EvHeartbeat string

fun ws_step :: "WebsocketConfig \<Rightarrow> WebsocketService \<Rightarrow> ws_event \<Rightarrow> WebsocketService" where
  "ws_step cfg ws EvOpen = openObserver ws"
| "ws_step cfg ws EvClose = closeObserver cfg ws"
| "ws_step cfg ws EvError = on_error ws"
| "ws_step cfg ws (EvMessage m) = on_message ws m"
| "ws_step cfg ws (EvTimer i) = fire_timer i ws"
| "ws_step cfg ws (EvHeartbeat now) = heartbeat_tick now ws"

definition ws_run :: "WebsocketConfig \<Rightarrow> WebsocketService \<Rightarrow> ws_event list \<Rightarrow> WebsocketService" where
  "ws_run cfg ws evs = foldl (ws_step cfg) ws evs"

text \<open>The state the constructor leaves: it connects and starts the heartbeat.\<close>

definition ws_init :: WebsocketService where
  "ws_init =
     (connect \<lparr> socket = None, reconnectAttempts = 0, isManualDisconnect = False,
               heartbeatTimer = False, statusLog = [], messagesLog = [], sent = [],
               timers = [], connects = 0 \<rparr>) \<lparr> heartbeatTimer := True \<rparr>"

text \<open>A run in which the socket never opens.\<close>

fun is_open :: "ws_event \<Rightarrow> bool" where
  "is_open EvOpen = True"
| "is_open e = False"


text \<open>
  The measure behind the bound on reconnections: connection attempts made, timers pending and
  reconnection attempts left.
\<close>

definition potential :: "WebsocketConfig \<Rightarrow> WebsocketService \<Rightarrow> nat" where
  "potential cfg ws =
     connects ws + length (timers ws) + (maxReconnectAttempts cfg - reconnectAttempts ws)"


section \<open>Ping actions of the components\<close>

text \<open>
  What \<^verbatim>\<open>HttpClient\<close> delivers to a subscriber: the parsed body of a successful response,
  to the \<^verbatim>\<open>next\<close> callback, or a failed response, to the interceptors and then the
  \<^verbatim>\<open>error\<close> callback.
\<close>

datatype http_outcome = HttpOk jsval | HttpFailed HttpErrorResponse

text \<open>
  \<^verbatim>\<open>DevicesComponent.pingDevice(device)\<close>: the notification before the request, and the
  \<^verbatim>\<open>next\<close> and \<^verbatim>\<open>error\<close> callbacks of the subscription. \<open>name\<close> is \<^verbatim>\<open>device.name\<close>.
\<close>

definition pingDevice_devices_start :: "NotificationService \<Rightarrow> string \<Rightarrow> NotificationService" where
  "pingDevice_devices_start svc name = notify_info svc (JStr (''Pinging '' @ name @ ''...'')) None"

definition pingDevice_devices_next ::
  "NotificationService \<Rightarrow> string \<Rightarrow> jsval \<Rightarrow> js_error + NotificationService" where
  "pingDevice_devices_next svc name result =
     (case get_prop result ''is_alive'' of
        Inl e \<Rightarrow> Inl e
      | Inr is_alive \<Rightarrow>
          if truthy is_alive then
            (case get_prop result ''response_time_ms'' of
               Inl e \<Rightarrow> Inl e
             | Inr rt \<Rightarrow>
                 (case ToString rt of
                    Inl e \<Rightarrow> Inl e
                  | Inr s \<Rightarrow> Inr (notify_success svc (JStr (name @ '' is UP ('' @ s @ ''ms)'')) None)))
          else Inr (notify_error svc (JStr (name @ '' is DOWN'')) None))"

definition pingDevice_devices_error ::
  "NotificationService \<Rightarrow> jsval \<Rightarrow> js_error + NotificationService" where
  "pingDevice_devices_error svc error = showApiError svc error"

text \<open>
  \<^verbatim>\<open>DeviceDetailComponent.pingDevice()\<close>, on the component's fields \<^verbatim>\<open>isPinging\<close> and
  \<^verbatim>\<open>pingResult\<close>: the start of the request and the two callbacks. The fields are assigned
  before \<^verbatim>\<open>result.is_alive\<close> is read, so they are set even when that read throws.
\<close>

record DeviceDetail =
  isPinging :: bool
  pingResult :: jsval

definition pingDevice_detail_start :: "DeviceDetail \<Rightarrow> DeviceDetail" where
  "pingDevice_detail_start c = c\<lparr> isPinging := True, pingResult := JNull \<rparr>"

definition pingDevice_detail_next ::
  "DeviceDetail \<Rightarrow> NotificationService \<Rightarrow> jsval \<Rightarrow> DeviceDetail \<times> (js_error + NotificationService)" where
  "pingDevice_detail_next c svc result =
     (c\<lparr> pingResult := result, isPinging := False \<rparr>,
      (case get_prop result ''is_alive'' of
         Inl e \<Rightarrow> Inl e
       | Inr isAlive \<Rightarrow>
           (case get_prop result ''response_time_ms'' of
              Inl e \<Rightarrow> Inl e
            | Inr rt \<Rightarrow>
                if truthy isAlive then
                  (case ToString rt of
                     Inl e \<Rightarrow> Inl e
                   | Inr s \<Rightarrow> Inr (notify_success svc (JStr (''Device is UP ('' @ s @ ''ms)'')) None))
                else Inr (notify_error svc (JStr ''Device is DOWN'') None))))"

definition pingDevice_detail_error ::
  "DeviceDetail \<Rightarrow> NotificationService \<Rightarrow> jsval \<Rightarrow> DeviceDetail \<times> (js_error + NotificationService)" where
  "pingDevice_detail_error c svc error = (c\<lparr> isPinging := False \<rparr>, showApiError svc error)"


section \<open>Monitoring core (backend)\<close>

text \<open>
  Modelled from the spec: the error classification of a probe result (section 4.1: timeout,
  unreachable, protocol-error). The probe is part of the backend, which is not under
  \<^verbatim>\<open>src/\<close>.
\<close>

datatype probe_error = Timeout | Unreachable | ProtocolError

text \<open>
  Modelled from the spec: what the network does with one probe of section 4.1 within the
  timeout: it answers after some milliseconds, it does not answer in time, the target cannot
  be reached, or the answer violates the protocol.
\<close>

datatype net_outcome = Replied nat | NoReply | NoRoute | BadReply

text \<open>
  Modelled from the spec: the output of a probe (section 4.1): the reachable flag, the latency
  if reachable, the error classification otherwise.
\<close>

record probe_result =
  reachable :: bool
  latency :: "nat option"
  error_class :: "probe_error option"

text \<open>
  Modelled from the spec: the Probe of section 4.1, missing from \<^verbatim>\<open>src/\<close> with the rest of
  the backend. It is stateless and maps the outcome on the network to a result; a failure is
  a result variant and not an exception.
\<close>

fun probe :: "net_outcome \<Rightarrow> probe_result" where
  "probe (Replied ms) = \<lparr> reachable = True, latency = Some ms, error_class = None \<rparr>"
| "probe NoReply = \<lparr> reachable = False, latency = None, error_class = Some Timeout \<rparr>"
| "probe NoRoute = \<lparr> reachable = False, latency = None, error_class = Some Unreachable \<rparr>"
| "probe BadReply = \<lparr> reachable = False, latency = None, error_class = Some ProtocolError \<rparr>"

text \<open>
  Modelled from the spec: the body in which the ping-one action (section 6) returns a probe
  result. The backend's serialisation is not under \<^verbatim>\<open>src/\<close>; the keys \<^verbatim>\<open>is_alive\<close> and
  \<^verbatim>\<open>response_time_ms\<close> are the ones the callers above read.
\<close>

definition probe_body :: "probe_result \<Rightarrow> jsval" where
  "probe_body r =
     JObj [(''is_alive'', JBool (reachable r)),
           (''response_time_ms'', (case latency r of Some ms \<Rightarrow> JNum (dec ms) | None \<Rightarrow> JNull)),
           (''error'', (case error_class r of
                          None \<Rightarrow> JNull
                        | Some Timeout \<Rightarrow> JStr ''timeout''
                        | Some Unreachable \<Rightarrow> JStr ''unreachable''
                        | Some ProtocolError \<Rightarrow> JStr ''protocol-error''))]"

text \<open>
  Modelled from the spec: the ping-one action endpoint (sections 6 and 7) on an existing
  device, missing from \<^verbatim>\<open>src/\<close>: it probes the device and answers with the result as a
  successful response, whatever the probe found.
\<close>

definition ping_one :: "net_outcome \<Rightarrow> http_outcome" where
  "ping_one outcome = HttpOk (probe_body (probe outcome))"

text \<open>Modelled from the spec: the last-known status of a device or link (section 3).\<close>

datatype target_status = UP | DOWN | UNKNOWN

text \<open>Modelled from the spec: the two kinds of monitored target (section 3).\<close>

datatype target_kind = Device | Link

text \<open>
  Modelled from the spec: a monitored target of the registry (sections 2 and 3): identity,
  kind, network address, monitoring flag, last-known status, and the consecutive-failure
  threshold that the example of section 8 configures.
\<close>

record target =
  target_id :: string
  kind :: target_kind
  address :: string
  is_monitored :: bool
  threshold :: nat
  last_status :: target_status

text \<open>Modelled from the spec: the types of the events that record a status transition.\<close>

datatype event_type = DEVICE_UP | DEVICE_DOWN | LINK_UP | LINK_DOWN

text \<open>
  Modelled from the spec: an Event (section 3), as far as the monitor cycle fills it in: its
  type and the target it is about.
\<close>

record event =
  event_type :: event_type
  about :: string


text \<open>
  Modelled from the spec: the status a probe result stands for. A probe that fails, a
  time-out included, counts as failed and not as unknown (section 4.2).
\<close>

definition observed_status :: "probe_result \<Rightarrow> target_status" where
  "observed_status r = (if reachable r then UP else DOWN)"

text \<open>Modelled from the spec: the event type for a target's kind and its new status.\<close>

fun transition_event :: "target_kind \<Rightarrow> target_status \<Rightarrow> event_type" where
  "transition_event Device UP = DEVICE_UP"
| "transition_event Device s = DEVICE_DOWN"
| "transition_event Link UP = LINK_UP"
| "transition_event Link s = LINK_DOWN"

text \<open>Modelled from the spec: the message published for a transition (sections 4.3 and 6).\<close>

definition status_message :: "target \<Rightarrow> target_status \<Rightarrow> WebSocketMessage" where
  "status_message t s =
     \<lparr> msg_type = (case kind t of Device \<Rightarrow> ''DEVICE_STATUS'' | Link \<Rightarrow> ''LINK_STATUS''),
       data = JObj [(''id'', JStr (target_id t)),
                    (''status'', JStr (case s of UP \<Rightarrow> ''UP'' | DOWN \<Rightarrow> ''DOWN'' | UNKNOWN \<Rightarrow> ''UNKNOWN''))],
       timestamp = None \<rparr>"


text \<open>
  Modelled from the spec: the monitor cycle's treatment of one target, missing from
  \<^verbatim>\<open>src/\<close> with the rest of the backend. It probes the target, compares the new status with
  the prior one and, on a change, stores the new status, writes one event and publishes one
  message (sections 2 and 4.3). This is the diffing and persisting step for a probe result
  that has reached it; the consecutive-failure threshold of section 4.2 is applied in front
  of it, by \<open>debounce_target\<close> below.
\<close>

definition check_target ::
  "(string \<Rightarrow> net_outcome) \<Rightarrow> target \<Rightarrow> target \<times> event list \<times> WebSocketMessage list" where
  "check_target net t =
     (let new = observed_status (probe (net (address t)))
      in if is_monitored t \<and> new \<noteq> last_status t
         then (t\<lparr> last_status := new \<rparr>,
               [\<lparr> event_type = transition_event (kind t) new, about = target_id t \<rparr>],
               [status_message t new])
         else (t, [], []))"




text \<open>Modelled from the spec: a probe outcome that is a failure (section 4.1).\<close>

definition failed :: "net_outcome \<Rightarrow> bool" where
  "failed outcome = (\<not> reachable (probe outcome))"


section \<open>Triggering the monitor cycle\<close>

text \<open>
  A request of the HTTP client, and \<^verbatim>\<open>ApiService.runMonitoringCycle()\<close>, which posts an
  empty object to the run-cycle endpoint below the base URL.
\<close>

datatype http_request = POST string jsval

definition api_runMonitoringCycle :: "string \<Rightarrow> http_request" where
  "api_runMonitoringCycle baseUrl = POST (baseUrl @ ''/monitoring/run-cycle'') (JObj [])"

text \<open>
  \<^verbatim>\<open>DashboardComponent.runMonitoringCycle()\<close>: the call subscribes to the request at once,
  so every call sends one request (\<open>sent_requests\<close> are the requests sent so far); the
  component keeps no flag for a request or a cycle in flight. The two callbacks of the
  subscription follow.
\<close>

definition runMonitoringCycle :: "string \<Rightarrow> http_request list \<Rightarrow> http_request list" where
  "runMonitoringCycle baseUrl sent_requests = sent_requests @ [api_runMonitoringCycle baseUrl]"

definition runMonitoringCycle_next :: "NotificationService \<Rightarrow> NotificationService" where
  "runMonitoringCycle_next svc = notify_info svc (JStr ''Monitoring cycle started'') None"

definition runMonitoringCycle_error :: "NotificationService \<Rightarrow> jsval \<Rightarrow> js_error + NotificationService" where
  "runMonitoringCycle_error svc error = showApiError svc error"

text \<open>
  Modelled from the spec: the phases of a run of the monitor cycle (section 4.2: Idle, then
  Fetching-Targets, Probing, Diffing, Persisting, then Idle again); a run that is idle is not
  in flight. The driver of the cycle is part of the backend, which is not under \<^verbatim>\<open>src/\<close>.
\<close>

datatype cycle_phase = FetchingTargets | Probing | Diffing | Persisting

text \<open>Modelled from the spec: the phase after a phase; after persisting the run is over.\<close>

fun next_phase :: "cycle_phase \<Rightarrow> cycle_phase option" where
  "next_phase FetchingTargets = Some Probing"
| "next_phase Probing = Some Diffing"
| "next_phase Diffing = Some Persisting"
| "next_phase Persisting = None"

text \<open>
  Modelled from the spec: what triggers the cycle (sections 2 and 5): the timer or a manual
  call of the run-cycle endpoint.
\<close>

datatype trigger = TimerTrigger | ManualTrigger

text \<open>
  Modelled from the spec: the state of the cycle's driver (section 5): the runs in flight,
  each with its phase, and counts of the runs started, of the triggers that were coalesced or
  rejected, and of the runs completed. The list can hold any number of runs, so that the
  bound of one is a property of the driver and not of the type.
\<close>

record cycle_driver =
  active :: "cycle_phase list"
  started :: nat
  declined :: nat
  completed :: nat

text \<open>
  Modelled from the spec: a trigger reaches the driver (section 5): only one cycle may be
  active at a time, so a trigger starts a run when none is in flight, and is coalesced or
  rejected, starting nothing, while one is running.
\<close>

definition on_trigger :: "cycle_driver \<Rightarrow> trigger \<Rightarrow> cycle_driver" where
  "on_trigger d src =
     (if active d = [] then d\<lparr> active := [FetchingTargets], started := started d + 1 \<rparr>
      else d\<lparr> declined := declined d + 1 \<rparr>)"

text \<open>
  Modelled from the spec: the run at position \<open>i\<close> of those in flight finishes its phase
  (section 4.2): it enters the next phase, or is over after persisting.
\<close>

definition on_advance :: "cycle_driver \<Rightarrow> nat \<Rightarrow> cycle_driver" where
  "on_advance d i =
     (if i < length (active d) then
        (case next_phase (active d ! i) of
           Some p \<Rightarrow> d\<lparr> active := (active d)[i := p] \<rparr>
         | None \<Rightarrow> d\<lparr> active := take i (active d) @ drop (Suc i) (active d),
                       completed := completed d + 1 \<rparr>)
      else d)"

text \<open>
  Modelled from the spec: what happens to the driver, in any order: a trigger arrives, from
  the timer or from a manual call, or a run in flight finishes a phase.
\<close>

datatype driver_event = Trigger trigger | Advance nat

text \<open>Modelled from the spec: the driver's reaction to one event and to a sequence of them.\<close>

fun driver_step :: "cycle_driver \<Rightarrow> driver_event \<Rightarrow> cycle_driver" where
  "driver_step d (Trigger src) = on_trigger d src"
| "driver_step d (Advance i) = on_advance d i"

text \<open>Modelled from the spec: the driver after a sequence of events.\<close>

definition driver_run :: "cycle_driver \<Rightarrow> driver_event list \<Rightarrow> cycle_driver" where
  "driver_run d evs = foldl driver_step d evs"

text \<open>
  Modelled from the spec: the run-cycle action endpoint (section 6): each request that
  reaches it is a manual trigger of the cycle.
\<close>

definition run_cycle_endpoint :: "http_request \<Rightarrow> driver_event" where
  "run_cycle_endpoint request = Trigger ManualTrigger"


section \<open>Monitoring core: the consecutive-failure threshold\<close>

text \<open>
  Modelled from the spec: a monitored target together with the number of its most recent
  consecutive failed probes, which a debounce has to keep (glossary: requiring N consecutive
  identical results before committing a state transition). The backend is not under
  \<^verbatim>\<open>src/\<close>.
\<close>

record tracked =
  tracked_target :: target
  consecutive_failures :: nat


text \<open>
  Modelled from the spec: the edge policy of section 4.2 for one target, missing from
  \<^verbatim>\<open>src/\<close> with the rest of the backend. A failed probe, a time-out included, counts as
  failed; it is held back while the consecutive failures are below the target's threshold, so
  that a single dropped probe does not flip the status. When the count reaches the
  threshold, and on every successful probe, the result goes to the diffing step
  \<open>check_target\<close>, which writes the event on a change; a successful probe resets the count.
  (Section 9 of the spec notes that the source does not implement this policy; the model is
  the policy that sections 4.2 and 8 specify.)
\<close>

definition debounce_target ::
  "(string \<Rightarrow> net_outcome) \<Rightarrow> tracked \<Rightarrow> tracked \<times> event list \<times> WebSocketMessage list" where
  "debounce_target net k =
     (let t = tracked_target k
      in if \<not> is_monitored t then (k, [], [])
         else if reachable (probe (net (address t))) then
           (case check_target net t of
              (t', es, ms) \<Rightarrow> (\<lparr> tracked_target = t', consecutive_failures = 0 \<rparr>, es, ms))
         else if threshold t \<le> consecutive_failures k + 1 then
           (case check_target net t of
              (t', es, ms) \<Rightarrow>
                (\<lparr> tracked_target = t', consecutive_failures = consecutive_failures k + 1 \<rparr>,
                 es, ms))
         else (k\<lparr> consecutive_failures := consecutive_failures k + 1 \<rparr>, [], []))"





chapter \<open>Properties\<close>

section \<open>Selection toggles\<close>

lemma indexOf_absent: "x \<notin> set xs \<Longrightarrow> indexOf xs x = - 1"
  by (induction xs) (auto simp: Let_def)

lemma indexOf_present: "x \<in> set xs \<Longrightarrow> 0 \<le> indexOf xs x"
  by (induction xs) (auto simp: Let_def)

lemma splice1_indexOf: "x \<in> set xs \<Longrightarrow> splice1 xs (nat (indexOf xs x)) = remove1 x xs"
proof (induction xs)
  case Nil
  then show ?case by simp
next
  case (Cons y ys)
  show ?case
  proof (cases "y = x")
    case True
    then show ?thesis by (simp add: splice1_def)
  next
    case False
    with Cons.prems have mem: "x \<in> set ys" by simp
    from indexOf_present [OF mem] have nn: "0 \<le> indexOf ys x" .
    then have "nat (indexOf ys x + 1) = Suc (nat (indexOf ys x))" by simp
    with False nn Cons.IH [OF mem] show ?thesis
      by (simp add: splice1_def Let_def)
  qed
qed

lemma toggleEventSelection_eq:
  "toggleEventSelection xs x = (if x \<in> set xs then remove1 x xs else xs @ [x])"
proof (cases "x \<in> set xs")
  case True
  with indexOf_present [OF True] splice1_indexOf [OF True] show ?thesis
    by (simp add: toggleEventSelection_def Let_def)
next
  case False
  with indexOf_absent [OF False] show ?thesis
    by (simp add: toggleEventSelection_def Let_def)
qed

lemma toggleDeviceSelection_eq:
  "toggleDeviceSelection xs x = toggleEventSelection xs x"
  by (simp add: toggleDeviceSelection_def toggleEventSelection_def)

lemma toggle_twice_list:
  "toggleEventSelection (toggleEventSelection xs x) x =
     (if x \<notin> set xs then xs
      else if x \<in> set (remove1 x xs) then remove1 x (remove1 x xs)
      else remove1 x xs @ [x])"
  by (simp add: toggleEventSelection_eq remove1_append)

lemma toggle_distinct: "distinct xs \<Longrightarrow> distinct (toggleEventSelection xs x)"
  by (simp add: toggleEventSelection_eq)

lemma foldl_toggle_distinct:
  "distinct xs \<Longrightarrow> distinct (foldl toggleEventSelection xs ids)"
  by (induction ids arbitrary: xs) (simp_all add: toggle_distinct)

lemma count_le_1_remove1: "count_list xs x \<le> 1 \<Longrightarrow> x \<notin> set (remove1 x xs)"
  by (induction xs) (auto simp: count_list_0_iff)

lemma toggle_twice_mset:
  assumes "count_list xs x \<le> 1"
  shows "mset (toggleEventSelection (toggleEventSelection xs x) x) = mset xs"
proof (cases "x \<in> set xs")
  case True
  from count_le_1_remove1 [OF assms] True show ?thesis
    by (simp add: toggle_twice_list)
next
  case False
  then show ?thesis by (simp add: toggle_twice_list)
qed

text \<open>
  C10 (as stated, refuted). The claim quantifies over every selection list. On a list that
  holds the id twice, two toggles remove both copies: from \<open>[''e1'', ''e1'']\<close> the id
  \<open>''e1''\<close> is gone altogether, so not even the set of selected ids is restored.
\<close>

theorem toggle_twice_counterexample:
  "set (toggleEventSelection (toggleEventSelection [''e1'', ''e1''] ''e1'') ''e1'')
     \<noteq> set [''e1'', ''e1'']
   \<and> toggleEventSelection (toggleEventSelection [''e1'', ''e1''] ''e1'') ''e1'' = []"
  by (simp add: toggleEventSelection_eq)

text \<open>
  C10 (amended). For every selection list in which the id occurs at most once (every
  duplicate-free selection in particular), toggling the same id twice gives back the same
  selected ids with the same multiplicities: exactly the original list when the id was absent,
  and the original list with the id moved to the end when it was present. A single toggle
  appends the id when it is absent and removes its first occurrence when it is present, in both
  components, and a duplicate-free selection stays duplicate-free under every sequence of
  toggles.
\<close>

theorem toggle_selection_twice:
  "(count_list xs x \<le> 1 \<longrightarrow>
      mset (toggleEventSelection (toggleEventSelection xs x) x) = mset xs
      \<and> toggleEventSelection (toggleEventSelection xs x) x =
          (if x \<in> set xs then remove1 x xs @ [x] else xs))
   \<and> toggleEventSelection xs x = (if x \<in> set xs then remove1 x xs else xs @ [x])
   \<and> toggleDeviceSelection xs x = (if x \<in> set xs then remove1 x xs else xs @ [x])
   \<and> (distinct xs \<longrightarrow> distinct (foldl toggleEventSelection xs ids)
                    \<and> distinct (foldl toggleDeviceSelection xs ids))"
proof -
  have dev: "toggleDeviceSelection = toggleEventSelection"
    by (intro ext) (rule toggleDeviceSelection_eq)
  have twice: "count_list xs x \<le> 1 \<Longrightarrow>
      toggleEventSelection (toggleEventSelection xs x) x =
        (if x \<in> set xs then remove1 x xs @ [x] else xs)"
    using count_le_1_remove1 [of xs x] by (simp add: toggle_twice_list)
  show ?thesis
    using twice toggle_twice_mset [of xs x] foldl_toggle_distinct [of xs ids]
    by (simp add: dev toggleEventSelection_eq)
qed

theorem toggle_selection_twice_witness:
  "count_list [''e1'', ''e2''] ''e1'' \<le> 1
   \<and> distinct [''e1'', ''e2'']
   \<and> toggleEventSelection (toggleEventSelection [''e1'', ''e2''] ''e1'') ''e1'' = [''e2'', ''e1'']
   \<and> mset (toggleEventSelection (toggleEventSelection [''e1'', ''e2''] ''e1'') ''e1'')
       = mset [''e1'', ''e2'']
   \<and> distinct (foldl toggleEventSelection [''e1'', ''e2''] [''e2'', ''e3'', ''e2''])"
proof -
  have c: "count_list [''e1'', ''e2''] ''e1'' \<le> 1" by simp
  have d: "distinct [''e1'', ''e2'']" by simp
  note t = toggle_selection_twice [of "[''e1'', ''e2'']" "''e1''" "[''e2'', ''e3'', ''e2'']"]
  from t c have m: "mset (toggleEventSelection (toggleEventSelection [''e1'', ''e2''] ''e1'') ''e1'')
       = mset [''e1'', ''e2'']"
    by blast
  from t c have "toggleEventSelection (toggleEventSelection [''e1'', ''e2''] ''e1'') ''e1'' =
      (if ''e1'' \<in> set [''e1'', ''e2''] then remove1 ''e1'' [''e1'', ''e2''] @ [''e1'']
       else [''e1'', ''e2''])"
    by blast
  then have l: "toggleEventSelection (toggleEventSelection [''e1'', ''e2''] ''e1'') ''e1''
      = [''e2'', ''e1'']"
    by simp
  from t d have f: "distinct (foldl toggleEventSelection [''e1'', ''e2''] [''e2'', ''e3'', ''e2''])"
    by blast
  from c d l m f show ?thesis by (intro conjI)
qed


section \<open>API errors as notifications\<close>

lemma detail_item_cases:
  "detail_item d =
     (if d = JNull \<or> d = JUndefined then Inl TypeError
      else Inr (js_or (opt_chain d ''msg'') d))"
  by (cases d) (simp_all add: detail_item_def)

lemma printing_throws_TypeError:
  "ToString v = Inl e \<Longrightarrow> e = TypeError"
  "join sep vs = Inl e \<Longrightarrow> e = TypeError"
  "join_elem v = Inl e \<Longrightarrow> e = TypeError"
  by (induction v and sep vs and v arbitrary: e and e and e rule: ToString_join_join_elem.induct)
     (auto split: if_splits sum.splits)

lemma map_throwing_detail_item:
  "map_throwing detail_item ds =
     (if list_all (\<lambda>d. d \<noteq> JNull \<and> d \<noteq> JUndefined) ds
      then Inr (map (\<lambda>d. js_or (opt_chain d ''msg'') d) ds)
      else Inl TypeError)"
  by (induction ds) (auto simp: detail_item_cases)

lemma join_prints:
  "(\<exists>s. join sep vs = Inr s) = list_all (\<lambda>v. \<exists>s. join_elem v = Inr s) vs"
  by (induction vs rule: induct_list012) (auto split: sum.splits)

lemma join_empty:
  assumes "join sep vs = Inr s" and "sep \<noteq> []"
  shows "(s = []) = (vs = [] \<or> (\<exists>v. vs = [v] \<and> join_elem v = Inr []))"
  using assms
  by (induction vs arbitrary: s rule: induct_list012) (auto split: sum.splits)

lemma item_usable_iff:
  "item_usable d =
     (d \<noteq> JNull \<and> d \<noteq> JUndefined \<and> (\<exists>s. join_elem (js_or (opt_chain d ''msg'') d) = Inr s))"
  by (auto simp: item_usable_def detail_item_cases split: sum.splits)

lemma array_detail_message:
  "(case map_throwing detail_item ds of
      Inl e \<Rightarrow> Inl e
    | Inr items \<Rightarrow> (case join '', '' items of Inl e \<Rightarrow> Inl e | Inr s \<Rightarrow> Inr (JStr s)))
   = (if list_all item_usable ds
      then Inr (JStr (case join '', '' (map (\<lambda>d. js_or (opt_chain d ''msg'') d) ds) of
                        Inr s \<Rightarrow> s | Inl e \<Rightarrow> []))
      else Inl TypeError)"
proof (cases "list_all (\<lambda>d. d \<noteq> JNull \<and> d \<noteq> JUndefined) ds")
  case False
  then have "\<not> list_all item_usable ds"
    by (auto simp: list_all_iff item_usable_iff)
  with False show ?thesis by (simp add: map_throwing_detail_item)
next
  case True
  let ?items = "map (\<lambda>d. js_or (opt_chain d ''msg'') d) ds"
  from True have u: "list_all item_usable ds = list_all (\<lambda>v. \<exists>s. join_elem v = Inr s) ?items"
    by (auto simp: list_all_iff item_usable_iff)
  show ?thesis
  proof (cases "join '', '' ?items")
    case (Inl e)
    with join_prints [of "'', ''" ?items] u have "\<not> list_all item_usable ds" by auto
    with True Inl printing_throws_TypeError(2) [OF Inl] show ?thesis
      by (simp add: map_throwing_detail_item)
  next
    case (Inr s)
    with join_prints [of "'', ''" ?items] u have "list_all item_usable ds" by auto
    with True Inr show ?thesis by (simp add: map_throwing_detail_item)
  qed
qed

lemma api_error_message_throws:
  assumes "\<not> detail_usable error"
  shows "api_error_message error = Inl TypeError"
proof (cases "opt_chain (opt_chain error ''error'') ''detail''")
  case (JArr ds)
  with assms have "\<not> list_all item_usable ds" by (simp add: detail_usable_def)
  with JArr show ?thesis
    by (simp add: api_error_message_def array_detail_message)
qed (use assms in \<open>simp_all add: detail_usable_def\<close>)

lemma array_detail_not_string:
  "opt_chain (opt_chain error ''error'') ''detail'' = JArr ds \<Longrightarrow> error \<noteq> JStr s"
  by (cases error) auto

lemma api_error_message_returns:
  assumes "detail_usable error"
  shows "\<exists>msg. api_error_message error = Inr msg
           \<and> prints_text msg = (\<not> empty_message_input error)"
proof (cases "truthy (opt_chain (opt_chain error ''error'') ''detail'')")
  case True
  show ?thesis
  proof (cases "opt_chain (opt_chain error ''error'') ''detail''")
    case (JArr ds)
    let ?items = "map (\<lambda>d. js_or (opt_chain d ''msg'') d) ds"
    from assms JArr have u: "list_all item_usable ds" by (simp add: detail_usable_def)
    then have "list_all (\<lambda>v. \<exists>s. join_elem v = Inr s) ?items"
      by (auto simp: list_all_iff item_usable_iff)
    with join_prints [of "'', ''" ?items] obtain s where s: "join '', '' ?items = Inr s"
      by auto
    from JArr u s have m: "api_error_message error = Inr (JStr s)"
      by (simp add: api_error_message_def array_detail_message)
    from join_empty [OF s] have e: "(s = []) = (?items = [] \<or> (\<exists>v. ?items = [v] \<and> join_elem v = Inr []))"
      by simp
    have i: "(?items = [] \<or> (\<exists>v. ?items = [v] \<and> join_elem v = Inr []))
        = (case ds of [] \<Rightarrow> True | [d] \<Rightarrow> item_prints_empty d | _ \<Rightarrow> False)"
    proof (cases ds rule: remdups_adj.cases)
      case 1
      then show ?thesis by simp
    next
      case (2 d)
      with u have "d \<noteq> JNull \<and> d \<noteq> JUndefined" by (simp add: item_usable_iff)
      with 2 show ?thesis by (simp add: item_prints_empty_def detail_item_cases)
    next
      case (3 d d' rest)
      then show ?thesis by simp
    qed
    from JArr array_detail_not_string [OF JArr, of "[]"] e i
    have "prints_text (JStr s) = (\<not> empty_message_input error)"
      by (simp add: prints_text_def empty_message_input_def)
    with m show ?thesis by blast
  next
    case (JStr s)
    with True have "s \<noteq> []" by simp
    moreover from JStr have "error \<noteq> JStr []" by (cases error) auto
    ultimately show ?thesis using JStr
      by (simp add: api_error_message_def prints_text_def empty_message_input_def)
  next
    case (JObj kvs)
    moreover from JObj have "error \<noteq> JStr []" by (cases error) auto
    ultimately show ?thesis
      by (simp add: api_error_message_def prints_text_def empty_message_input_def)
  next
    case (JBool b)
    moreover from JBool have "error \<noteq> JStr []" by (cases error) auto
    ultimately show ?thesis using True
      by (simp add: api_error_message_def prints_text_def empty_message_input_def)
  next
    case (JNum n)
    moreover from JNum have "error \<noteq> JStr []" by (cases error) auto
    ultimately show ?thesis using True
      by (simp add: api_error_message_def prints_text_def empty_message_input_def)
  qed (use True in simp_all)
next
  case False
  then have notarr: "(case opt_chain (opt_chain error ''error'') ''detail'' of
            JArr ds \<Rightarrow> (case ds of [] \<Rightarrow> True | [d] \<Rightarrow> item_prints_empty d | _ \<Rightarrow> False)
          | _ \<Rightarrow> False) = False"
    by (cases "opt_chain (opt_chain error ''error'') ''detail''") simp_all
  show ?thesis
  proof (cases "truthy (opt_chain error ''message'')")
    case True
    then have "error \<noteq> JStr []" by (cases error) auto
    with True False notarr show ?thesis
      by (simp add: api_error_message_def empty_message_input_def)
  next
    case nomsg: False
    show ?thesis
    proof (cases error)
      case (JStr s)
      with False nomsg show ?thesis
        by (simp add: api_error_message_def empty_message_input_def prints_text_def)
    qed (use False nomsg notarr in
          \<open>simp_all add: api_error_message_def empty_message_input_def prints_text_def\<close>)
  qed
qed

lemma api_error_message_fallback:
  assumes "(\<not> truthy (opt_chain (opt_chain error ''error'') ''detail'')
             \<and> \<not> truthy (opt_chain error ''message'') \<and> \<not> is_string error)
         \<or> (truthy (opt_chain (opt_chain error ''error'') ''detail'')
             \<and> \<not> is_string (opt_chain (opt_chain error ''error'') ''detail'')
             \<and> \<not> isArray (opt_chain (opt_chain error ''error'') ''detail''))"
  shows "api_error_message error = Inr (JStr ''An error occurred'')"
  using assms
  by (cases "opt_chain (opt_chain error ''error'') ''detail''")
     (auto simp: api_error_message_def)

lemma showApiError_result:
  "showApiError svc error =
     (case api_error_message error of
        Inl e \<Rightarrow> Inl e
      | Inr msg \<Rightarrow>
          Inr (svc\<lparr> idCounter := idCounter svc + 1,
                    emitted := emitted svc @
                      [\<lparr> id_field = ''notification-'' @ dec (idCounter svc), ntype = T_error,
                         title = Some ''Error'', message = msg, duration = Some 5000 \<rparr>] \<rparr>))"
  by (simp add: showApiError_def notify_error_def show_notification_def split: sum.splits)

lemma one_notification_message:
  assumes "svc\<lparr> idCounter := n, emitted := emitted svc @
              [\<lparr> id_field = i, ntype = t, title = ttl, message = msg, duration = dur \<rparr>] \<rparr>
         = svc\<lparr> idCounter := n, emitted := emitted svc @
              [\<lparr> id_field = i, ntype = t, title = ttl, message = msg', duration = dur \<rparr>] \<rparr>"
  shows "msg = msg'"
proof -
  from assms have "emitted (svc\<lparr> idCounter := n, emitted := emitted svc @
              [\<lparr> id_field = i, ntype = t, title = ttl, message = msg, duration = dur \<rparr>] \<rparr>)
         = emitted (svc\<lparr> idCounter := n, emitted := emitted svc @
              [\<lparr> id_field = i, ntype = t, title = ttl, message = msg', duration = dur \<rparr>] \<rparr>)"
    by (rule arg_cong)
  then show ?thesis by simp
qed

text \<open>
  C9 (as stated, refuted). The claim covers every input value. Four inputs break it: the
  empty plain string and an object whose detail is the empty array both yield a notification
  whose message is the empty string; an object whose \<^verbatim>\<open>message\<close> is the empty array
  yields that array as the message, which prints as the empty string; and an array detail
  with a \<^verbatim>\<open>null\<close> item makes \<^verbatim>\<open>d.msg\<close> throw a TypeError, so that no notification is
  emitted at all.
\<close>

theorem showApiError_counterexample:
  "showApiError \<lparr>idCounter = 0, emitted = []\<rparr> (JStr []) =
     Inr \<lparr>idCounter = 1,
          emitted = [\<lparr>id_field = ''notification-0'', ntype = T_error, title = Some ''Error'',
                      message = JStr [], duration = Some 5000\<rparr>]\<rparr>
   \<and> showApiError \<lparr>idCounter = 0, emitted = []\<rparr>
         (JObj [(''error'', JObj [(''detail'', JArr [])])]) =
     Inr \<lparr>idCounter = 1,
          emitted = [\<lparr>id_field = ''notification-0'', ntype = T_error, title = Some ''Error'',
                      message = JStr [], duration = Some 5000\<rparr>]\<rparr>
   \<and> showApiError \<lparr>idCounter = 0, emitted = []\<rparr> (JObj [(''message'', JArr [])]) =
     Inr \<lparr>idCounter = 1,
          emitted = [\<lparr>id_field = ''notification-0'', ntype = T_error, title = Some ''Error'',
                      message = JArr [], duration = Some 5000\<rparr>]\<rparr>
   \<and> ToString (JArr []) = Inr []
   \<and> showApiError \<lparr>idCounter = 0, emitted = []\<rparr>
         (JObj [(''error'', JObj [(''detail'', JArr [JNull])])]) = Inl TypeError"
  by (simp add: showApiError_def api_error_message_def detail_item_def notify_error_def
      show_notification_def dec.simps)

text \<open>
  C9 (amended). For every input value, \<^verbatim>\<open>showApiError\<close> returns and emits exactly one
  notification (the next id, type \<^verbatim>\<open>error\<close>, title \<^verbatim>\<open>Error\<close>, duration 5000 ms) exactly
  when its detail, if it is an array, has no item that is \<^verbatim>\<open>null\<close> or \<^verbatim>\<open>undefined\<close> or
  cannot be printed; on every other input it throws a TypeError. The message of that
  notification prints as non-empty text exactly when the input is none of: the empty string;
  an object whose detail is the empty array or an array of a single item that prints as the
  empty string; an object without truthy detail whose \<^verbatim>\<open>message\<close> is truthy but prints as
  the empty string or not at all. So the claim holds of \<^verbatim>\<open>null\<close>, \<^verbatim>\<open>undefined\<close>, every
  non-empty plain string, every object with a string detail, every object with an array
  detail outside the cases named, and every object with none of these. The message is
  \<^verbatim>\<open>An error occurred\<close> when there is no truthy detail, no truthy message and the input is
  not a string, and also when the detail is truthy but neither a string nor an array.
\<close>

theorem showApiError_one_error_notification:
  "((\<exists>msg. showApiError svc error =
            Inr (svc\<lparr> idCounter := idCounter svc + 1,
                      emitted := emitted svc @
                        [\<lparr> id_field = ''notification-'' @ dec (idCounter svc), ntype = T_error,
                           title = Some ''Error'', message = msg, duration = Some 5000 \<rparr>] \<rparr>)
          \<and> prints_text msg)
      = (detail_usable error \<and> \<not> empty_message_input error))
   \<and> ((\<exists>msg. showApiError svc error =
            Inr (svc\<lparr> idCounter := idCounter svc + 1,
                      emitted := emitted svc @
                        [\<lparr> id_field = ''notification-'' @ dec (idCounter svc), ntype = T_error,
                           title = Some ''Error'', message = msg, duration = Some 5000 \<rparr>] \<rparr>))
      = detail_usable error)
   \<and> ((showApiError svc error = Inl TypeError) = (\<not> detail_usable error))
   \<and> ((\<not> truthy (opt_chain (opt_chain error ''error'') ''detail'')
          \<and> \<not> truthy (opt_chain error ''message'') \<and> \<not> is_string error)
       \<or> (truthy (opt_chain (opt_chain error ''error'') ''detail'')
          \<and> \<not> is_string (opt_chain (opt_chain error ''error'') ''detail'')
          \<and> \<not> isArray (opt_chain (opt_chain error ''error'') ''detail''))
       \<longrightarrow> showApiError svc error =
            Inr (svc\<lparr> idCounter := idCounter svc + 1,
                      emitted := emitted svc @
                        [\<lparr> id_field = ''notification-'' @ dec (idCounter svc), ntype = T_error,
                           title = Some ''Error'', message = JStr ''An error occurred'',
                           duration = Some 5000 \<rparr>] \<rparr>))"
proof -
  let ?one = "\<lambda>msg. svc\<lparr> idCounter := idCounter svc + 1,
                      emitted := emitted svc @
                        [\<lparr> id_field = ''notification-'' @ dec (idCounter svc), ntype = T_error,
                           title = Some ''Error'', message = msg, duration = Some 5000 \<rparr>] \<rparr>"
  have fb: "showApiError svc error = Inr (?one (JStr ''An error occurred''))"
    if "(\<not> truthy (opt_chain (opt_chain error ''error'') ''detail'')
          \<and> \<not> truthy (opt_chain error ''message'') \<and> \<not> is_string error)
       \<or> (truthy (opt_chain (opt_chain error ''error'') ''detail'')
          \<and> \<not> is_string (opt_chain (opt_chain error ''error'') ''detail'')
          \<and> \<not> isArray (opt_chain (opt_chain error ''error'') ''detail''))"
    using api_error_message_fallback [OF that] by (simp add: showApiError_result)
  show ?thesis
  proof (cases "detail_usable error")
    case True
    from api_error_message_returns [OF True] obtain msg where
      m: "api_error_message error = Inr msg"
      and p: "prints_text msg = (\<not> empty_message_input error)"
      by blast
    from m have r: "showApiError svc error = Inr (?one msg)"
      by (simp add: showApiError_result)
    have only: "msg' = msg" if "showApiError svc error = Inr (?one msg')" for msg'
    proof -
      from that r have "?one msg' = ?one msg" by simp
      then show ?thesis by (rule one_notification_message)
    qed
    have a: "(\<exists>msg. showApiError svc error = Inr (?one msg) \<and> prints_text msg)
        = (detail_usable error \<and> \<not> empty_message_input error)"
    proof (rule iffI)
      assume "\<exists>msg. showApiError svc error = Inr (?one msg) \<and> prints_text msg"
      then obtain msg' where r': "showApiError svc error = Inr (?one msg')"
        and p': "prints_text msg'" by (elim exE conjE)
      from only [OF r'] p' have "prints_text msg" by simp
      with p have "\<not> empty_message_input error" by simp
      with True show "detail_usable error \<and> \<not> empty_message_input error" by (rule conjI)
    next
      assume "detail_usable error \<and> \<not> empty_message_input error"
      then have "\<not> empty_message_input error" by (rule conjunct2)
      with p have "prints_text msg" by simp
      with r show "\<exists>msg. showApiError svc error = Inr (?one msg) \<and> prints_text msg"
        by (intro exI conjI)
    qed
    have b: "(\<exists>msg. showApiError svc error = Inr (?one msg)) = detail_usable error"
    proof (rule iffI)
      show "detail_usable error" by (rule True)
    next
      from r show "\<exists>msg. showApiError svc error = Inr (?one msg)" by (rule exI)
    qed
    from r have c: "(showApiError svc error = Inl TypeError) = (\<not> detail_usable error)"
      using True by simp
    have d: "(\<not> truthy (opt_chain (opt_chain error ''error'') ''detail'')
          \<and> \<not> truthy (opt_chain error ''message'') \<and> \<not> is_string error)
       \<or> (truthy (opt_chain (opt_chain error ''error'') ''detail'')
          \<and> \<not> is_string (opt_chain (opt_chain error ''error'') ''detail'')
          \<and> \<not> isArray (opt_chain (opt_chain error ''error'') ''detail''))
       \<longrightarrow> showApiError svc error = Inr (?one (JStr ''An error occurred''))"
      by (rule impI) (rule fb)
    from a b c d show ?thesis by (intro conjI)
  next
    case False
    from api_error_message_throws [OF False] have t: "showApiError svc error = Inl TypeError"
      by (simp add: showApiError_result)
    from t False have a: "(\<exists>msg. showApiError svc error = Inr (?one msg) \<and> prints_text msg)
        = (detail_usable error \<and> \<not> empty_message_input error)"
      by simp
    from t False have b: "(\<exists>msg. showApiError svc error = Inr (?one msg)) = detail_usable error"
      by simp
    from t False have c: "(showApiError svc error = Inl TypeError) = (\<not> detail_usable error)"
      by simp
    have d: "(\<not> truthy (opt_chain (opt_chain error ''error'') ''detail'')
          \<and> \<not> truthy (opt_chain error ''message'') \<and> \<not> is_string error)
       \<or> (truthy (opt_chain (opt_chain error ''error'') ''detail'')
          \<and> \<not> is_string (opt_chain (opt_chain error ''error'') ''detail'')
          \<and> \<not> isArray (opt_chain (opt_chain error ''error'') ''detail''))
       \<longrightarrow> showApiError svc error = Inr (?one (JStr ''An error occurred''))"
      by (rule impI) (rule fb)
    from a b c d show ?thesis by (intro conjI)
  qed
qed

theorem showApiError_one_error_notification_witness:
  "\<not> truthy (opt_chain (opt_chain JNull ''error'') ''detail'')
   \<and> \<not> truthy (opt_chain JNull ''message'') \<and> \<not> is_string JNull
   \<and> showApiError \<lparr>idCounter = 3, emitted = []\<rparr> JNull =
       Inr \<lparr>idCounter = 4,
            emitted = [\<lparr>id_field = ''notification-3'', ntype = T_error, title = Some ''Error'',
                        message = JStr ''An error occurred'', duration = Some 5000\<rparr>]\<rparr>
   \<and> detail_usable (JObj [(''error'', JObj [(''detail'',
        JArr [JObj [(''loc'', JArr [JStr ''body'', JStr ''ip'']), (''msg'', JStr ''field required'')],
              JNum ''5''])])])
   \<and> \<not> empty_message_input (JObj [(''error'', JObj [(''detail'',
        JArr [JObj [(''loc'', JArr [JStr ''body'', JStr ''ip'']), (''msg'', JStr ''field required'')],
              JNum ''5''])])])
   \<and> (\<exists>msg. showApiError \<lparr>idCounter = 3, emitted = []\<rparr>
        (JObj [(''error'', JObj [(''detail'',
           JArr [JObj [(''loc'', JArr [JStr ''body'', JStr ''ip'']), (''msg'', JStr ''field required'')],
                 JNum ''5''])])]) =
          Inr \<lparr>idCounter = 4,
               emitted = [\<lparr>id_field = ''notification-3'', ntype = T_error, title = Some ''Error'',
                           message = msg, duration = Some 5000\<rparr>]\<rparr>
        \<and> prints_text msg)"
proof -
  let ?s = "\<lparr>idCounter = 3, emitted = []\<rparr>"
  let ?e = "JObj [(''error'', JObj [(''detail'',
      JArr [JObj [(''loc'', JArr [JStr ''body'', JStr ''ip'']), (''msg'', JStr ''field required'')],
            JNum ''5''])])]"
  have f1: "\<not> truthy (opt_chain (opt_chain JNull ''error'') ''detail'')" by simp
  have f2: "\<not> truthy (opt_chain JNull ''message'')" by simp
  have f3: "\<not> is_string JNull" by simp
  have one: "?s\<lparr> idCounter := idCounter ?s + 1,
               emitted := emitted ?s @
                 [\<lparr> id_field = ''notification-'' @ dec (idCounter ?s), ntype = T_error,
                    title = Some ''Error'', message = msg, duration = Some 5000 \<rparr>] \<rparr>
      = \<lparr>idCounter = 4,
         emitted = [\<lparr>id_field = ''notification-3'', ntype = T_error, title = Some ''Error'',
                     message = msg, duration = Some 5000\<rparr>]\<rparr>" for msg
    by (simp add: dec.simps)
  note t0 = showApiError_one_error_notification [of ?s JNull, unfolded one]
  from t0 [THEN conjunct2, THEN conjunct2, THEN conjunct2] f1 f2 f3
  have fb: "showApiError ?s JNull =
       Inr \<lparr>idCounter = 4,
            emitted = [\<lparr>id_field = ''notification-3'', ntype = T_error, title = Some ''Error'',
                        message = JStr ''An error occurred'', duration = Some 5000\<rparr>]\<rparr>"
    by simp
  have u: "detail_usable ?e"
    by (simp add: detail_usable_def item_usable_def detail_item_def js_or_def)
  have ne: "\<not> empty_message_input ?e"
    by (simp add: empty_message_input_def)
  note t1 = showApiError_one_error_notification [of ?s ?e, unfolded one]
  from t1 [THEN conjunct1] u ne
  have ex: "\<exists>msg. showApiError ?s ?e =
          Inr \<lparr>idCounter = 4,
               emitted = [\<lparr>id_field = ''notification-3'', ntype = T_error, title = Some ''Error'',
                           message = msg, duration = Some 5000\<rparr>]\<rparr>
        \<and> prints_text msg"
    by simp
  show ?thesis
    by (intro conjI) (rule f1 f2 f3 fb u ne ex)+
qed


section \<open>CRUD errors on their way to a toast\<close>

lemma errorMessage_of_string_detail:
  assumes "error_field r = Body b" and "opt_chain b ''detail'' = JStr s" and "s \<noteq> []"
  shows "errorMessage_of r = Inr (JStr s)"
  using assms by (simp add: errorMessage_of_def)

lemma showApiError_Error_object:
  assumes "s \<noteq> []"
  shows "showApiError svc (JObj [(''message'', JStr s)]) = Inr (notify_error svc (JStr s) (Some ''Error''))"
  using assms by (simp add: showApiError_def api_error_message_def)

text \<open>
  C5 (as stated, refuted). A 409 response whose body carries the detail text does not reach
  the caller as it was: the error interceptor replaces it by a new \<^verbatim>\<open>Error\<close> that holds
  only the text. The status code and the body can no longer be read from what the caller
  receives.
\<close>

theorem crud_error_unmodified_counterexample:
  "snd (snd (http_error_path
       \<lparr>access_token = Some ''token'', navigations = []\<rparr>
       \<lparr>idCounter = 0, emitted = []\<rparr>
       \<lparr>status = 409, statusText = ''Conflict'',
        error_field = Body (JObj [(''detail'', JStr ''Device with this IP address already exists'')]),
        message_field = ''Http failure response for /api/v1/devices: 409 Conflict''\<rparr>))
     = Inr (JObj [(''message'', JStr ''Device with this IP address already exists'')])
   \<and> JObj [(''message'', JStr ''Device with this IP address already exists'')]
     \<noteq> response_value
         \<lparr>status = 409, statusText = ''Conflict'',
          error_field = Body (JObj [(''detail'', JStr ''Device with this IP address already exists'')]),
          message_field = ''Http failure response for /api/v1/devices: 409 Conflict''\<rparr>
   \<and> opt_chain (response_value
         \<lparr>status = 409, statusText = ''Conflict'',
          error_field = Body (JObj [(''detail'', JStr ''Device with this IP address already exists'')]),
          message_field = ''Http failure response for /api/v1/devices: 409 Conflict''\<rparr>) ''status''
     = JNum ''409''
   \<and> opt_chain (JObj [(''message'', JStr ''Device with this IP address already exists'')]) ''status''
     = JUndefined"
  by (simp add: http_error_path_def auth_catchError_def intercept_catchError_def
      errorMessage_of_def response_value_def dec.simps)

text \<open>
  C5 (amended). For every error response of the server whose body carries a non-empty
  textual detail, the detail text is propagated to the caller unmodified, as the message of a
  new \<^verbatim>\<open>Error\<close> that replaces the response (status code and body are dropped), and the
  caller's \<^verbatim>\<open>showApiError\<close> displays that same text as one toast of type \<^verbatim>\<open>error\<close>.
  Before that the error interceptor has shown a toast of its own: the detail text for a status
  of 500 and above, 409 and 400, a fixed text for 404 and 403, and nothing for any other
  status.
\<close>

theorem crud_error_detail_toast:
  assumes "error_field r = Body b" and "opt_chain b ''detail'' = JStr s" and "s \<noteq> []"
  shows "\<exists>st' svc'.
           http_error_path st svc r = (st', svc', Inr (JObj [(''message'', JStr s)]))
         \<and> svc' =
             (if status r \<ge> 500 then notify_error svc (JStr s) (Some ''Server Error'')
              else if status r = 404
                then notify_warning svc (JStr ''Resource not found'') (Some ''Not Found'')
              else if status r = 403
                then notify_warning svc
                       (JStr ''You don't have permission to perform this action'') (Some ''Forbidden'')
              else if status r = 409 then notify_warning svc (JStr s) (Some ''Conflict'')
              else if status r = 400 then notify_warning svc (JStr s) (Some ''Invalid Request'')
              else svc)
         \<and> showApiError svc' (JObj [(''message'', JStr s)]) =
             Inr (svc'\<lparr> idCounter := idCounter svc' + 1,
                        emitted := emitted svc' @
                          [\<lparr> id_field = ''notification-'' @ dec (idCounter svc'), ntype = T_error,
                             title = Some ''Error'', message = JStr s, duration = Some 5000 \<rparr>] \<rparr>)"
proof -
  from errorMessage_of_string_detail [OF assms] have em: "errorMessage_of r = Inr (JStr s)" .
  have toast: "showApiError svc' (JObj [(''message'', JStr s)]) =
             Inr (svc'\<lparr> idCounter := idCounter svc' + 1,
                        emitted := emitted svc' @
                          [\<lparr> id_field = ''notification-'' @ dec (idCounter svc'), ntype = T_error,
                             title = Some ''Error'', message = JStr s, duration = Some 5000 \<rparr>] \<rparr>)"
    for svc'
    using showApiError_Error_object [OF assms(3), of svc']
    by (simp add: notify_error_def show_notification_def)
  from em toast show ?thesis
    by (simp add: http_error_path_def auth_catchError_def intercept_catchError_def)
qed

theorem crud_error_detail_toast_witness:
  "error_field \<lparr>status = 409, statusText = ''Conflict'',
        error_field = Body (JObj [(''detail'', JStr ''Device with this IP address already exists'')]),
        message_field = ''Http failure response for /api/v1/devices: 409 Conflict''\<rparr>
     = Body (JObj [(''detail'', JStr ''Device with this IP address already exists'')])
   \<and> opt_chain (JObj [(''detail'', JStr ''Device with this IP address already exists'')]) ''detail''
     = JStr ''Device with this IP address already exists''
   \<and> ''Device with this IP address already exists'' \<noteq> []
   \<and> (\<exists>st' svc'.
         http_error_path \<lparr>access_token = Some ''token'', navigations = []\<rparr>
           \<lparr>idCounter = 0, emitted = []\<rparr>
           \<lparr>status = 409, statusText = ''Conflict'',
            error_field = Body (JObj [(''detail'', JStr ''Device with this IP address already exists'')]),
            message_field = ''Http failure response for /api/v1/devices: 409 Conflict''\<rparr>
           = (st', svc', Inr (JObj [(''message'', JStr ''Device with this IP address already exists'')]))
       \<and> map message (emitted svc') = [JStr ''Device with this IP address already exists'']
       \<and> (\<exists>svc''. showApiError svc' (JObj [(''message'', JStr ''Device with this IP address already exists'')])
              = Inr svc''
            \<and> map message (emitted svc'') =
                [JStr ''Device with this IP address already exists'',
                 JStr ''Device with this IP address already exists'']
            \<and> map ntype (emitted svc'') = [T_warning, T_error]))"
proof -
  let ?s = "''Device with this IP address already exists''"
  let ?b = "JObj [(''detail'', JStr ?s)]"
  let ?r = "\<lparr>status = 409, statusText = ''Conflict'', error_field = Body ?b,
        message_field = ''Http failure response for /api/v1/devices: 409 Conflict''\<rparr>"
  have h1: "error_field ?r = Body ?b" by simp
  have h2: "opt_chain ?b ''detail'' = JStr ?s" by simp
  have h3: "?s \<noteq> []" by simp
  from crud_error_detail_toast [OF h1 h2 h3,
      of "\<lparr>access_token = Some ''token'', navigations = []\<rparr>" "\<lparr>idCounter = 0, emitted = []\<rparr>"]
  obtain st' svc' where
    p: "http_error_path \<lparr>access_token = Some ''token'', navigations = []\<rparr>
           \<lparr>idCounter = 0, emitted = []\<rparr> ?r = (st', svc', Inr (JObj [(''message'', JStr ?s)]))"
    and v: "svc' = notify_warning \<lparr>idCounter = 0, emitted = []\<rparr> (JStr ?s) (Some ''Conflict'')"
    and t: "showApiError svc' (JObj [(''message'', JStr ?s)]) =
             Inr (svc'\<lparr> idCounter := idCounter svc' + 1,
                        emitted := emitted svc' @
                          [\<lparr> id_field = ''notification-'' @ dec (idCounter svc'), ntype = T_error,
                             title = Some ''Error'', message = JStr ?s, duration = Some 5000 \<rparr>] \<rparr>)"
    by auto
  from v have m1: "map message (emitted svc') = [JStr ?s]"
    by (simp add: notify_warning_def show_notification_def)
  from v have m2: "map ntype (emitted svc') = [T_warning]"
    by (simp add: notify_warning_def show_notification_def)
  from t m1 m2 have ex: "\<exists>svc''. showApiError svc' (JObj [(''message'', JStr ?s)]) = Inr svc''
      \<and> map message (emitted svc'') = [JStr ?s, JStr ?s]
      \<and> map ntype (emitted svc'') = [T_warning, T_error]"
    by simp
  then obtain svc'' where
    e: "showApiError svc' (JObj [(''message'', JStr ?s)]) = Inr svc''
        \<and> map message (emitted svc'') = [JStr ?s, JStr ?s]
        \<and> map ntype (emitted svc'') = [T_warning, T_error]" ..
  note e1 = e [THEN conjunct1]
  note e2 = e [THEN conjunct2, THEN conjunct1]
  note e3 = e [THEN conjunct2, THEN conjunct2]
  show ?thesis
    by (intro conjI exI) (rule h1 h2 h3 p m1 e1 e2 e3)+
qed


section \<open>Pagination\<close>

lemma totalPages_events_ge_1:
  assumes "0 < psz"
  shows "\<exists>n. totalPages_events cnt psz = Num n \<and> 1 \<le> n"
  using assms by (auto simp: totalPages_events_def Math_ceil_div_def)

lemma take_drop_nth:
  assumes "i + n \<le> length xs"
  shows "take n (drop i xs) = map (\<lambda>k. xs ! k) [i..<i + n]"
  using assms
  by (intro nth_equalityI) (auto simp: add.commute)

text \<open>
  C8. Over a collection of 45 devices, the request for page 2 with a page size of 20 returns
  exactly the devices at positions 21 through 40 (indices 20 to 39 of the collection), twenty
  of them. The page count derived from a total of 45 and a page size of 20 is 3, in the events
  component's getter and in the devices component's \<^verbatim>\<open>calculatePagination\<close>, which numbers
  the pages 1, 2, 3. The getter's page count is at least 1 for every total and every
  positive page size.
\<close>

theorem pagination_page_2_of_45:
  assumes "length devices = 45"
  shows "list_page 2 20 devices = Some (map (\<lambda>k. devices ! k) [20..<40])
       \<and> (\<exists>page. list_page 2 20 devices = Some page \<and> length page = 20)
       \<and> totalPages_events 45 20 = Num 3
       \<and> calculatePagination \<lparr>totalDevices = 45, pageSize = 20, totalPages = tp, pages = ps\<rparr>
           = Inr \<lparr>totalDevices = 45, pageSize = 20, totalPages = Num 3, pages = [1, 2, 3]\<rparr>
       \<and> (0 < psz \<longrightarrow> (\<exists>n. totalPages_events cnt psz = Num n \<and> 1 \<le> n))"
proof -
  from assms have "20 + 20 \<le> length devices" by simp
  from take_drop_nth [OF this]
  have "take 20 (drop 20 devices) = map (\<lambda>k. devices ! k) [20..<40]"
    by simp
  then have page: "list_page 2 20 devices = Some (map (\<lambda>k. devices ! k) [20..<40])"
    unfolding list_page_def by simp
  have "length (map (\<lambda>k. devices ! k) [20..<40]) = 20"
    by simp
  with page have len: "\<exists>page. list_page 2 20 devices = Some page \<and> length page = 20"
    by (intro exI conjI)
  have ev: "totalPages_events 45 20 = Num 3"
    by (simp add: totalPages_events_def Math_ceil_div_def)
  have dv: "calculatePagination \<lparr>totalDevices = 45, pageSize = 20, totalPages = tp, pages = ps\<rparr>
           = Inr \<lparr>totalDevices = 45, pageSize = 20, totalPages = Num 3, pages = [1, 2, 3]\<rparr>"
    by (simp add: calculatePagination_def Math_ceil_div_def upt_conv_Cons)
  have ge: "0 < psz \<longrightarrow> (\<exists>n. totalPages_events cnt psz = Num n \<and> 1 \<le> n)"
    by (rule impI) (rule totalPages_events_ge_1)
  from page len ev dv ge show ?thesis
    by (intro conjI)
qed

theorem pagination_page_2_of_45_witness:
  "length [1..<46 :: nat] = 45
   \<and> list_page 2 20 [1..<46 :: nat]
       = Some [21, 22, 23, 24, 25, 26, 27, 28, 29, 30, 31, 32, 33, 34, 35, 36, 37, 38, 39, 40]
   \<and> 0 < (20 :: nat)
   \<and> (\<exists>n. totalPages_events 0 20 = Num n \<and> 1 \<le> n)"
proof -
  have h: "length [1..<46 :: nat] = 45" by simp
  note t = pagination_page_2_of_45 [OF h, of "Num 0" "[]" 20 0]
  from t have "list_page 2 20 [1..<46 :: nat] = Some (map (\<lambda>k. [1..<46] ! k) [20..<40])"
    by (rule conjunct1)
  also have "map (\<lambda>k. [1..<46 :: nat] ! k) [20..<40]
       = [21, 22, 23, 24, 25, 26, 27, 28, 29, 30, 31, 32, 33, 34, 35, 36, 37, 38, 39, 40]"
    by code_simp
  finally have p: "list_page 2 20 [1..<46 :: nat]
       = Some [21, 22, 23, 24, 25, 26, 27, 28, 29, 30, 31, 32, 33, 34, 35, 36, 37, 38, 39, 40]" .
  have z: "0 < (20 :: nat)" by simp
  note imp = t [THEN conjunct2, THEN conjunct2, THEN conjunct2, THEN conjunct2]
  from imp z have e: "\<exists>n. totalPages_events 0 20 = Num n \<and> 1 \<le> n" by (rule mp)
  from h p z e show ?thesis by (intro conjI)
qed


section \<open>Push channel: filtering by type and the ping envelope\<close>

lemma foldl_byType_next:
  "foldl (byType_next t) acc msgs = acc @ map data (filter (\<lambda>m. msg_type m = t) msgs)"
  by (induction msgs arbitrary: acc) (simp_all add: byType_next_def)

lemma sendPing_sent:
  "sent (sendPing now ws) =
     sent ws @ (if isConnected ws
                then [JObj [(''type'', JStr ''PING''), (''data'', JObj [(''timestamp'', JStr now)])]]
                else [])"
  by (simp add: sendPing_def send_def)

text \<open>
  C6. For every sequence of messages on the push channel and every type \<open>t\<close>, the observer
  of \<^verbatim>\<open>getMessagesByType(t)\<close> receives exactly the data payloads of the messages whose type
  is \<open>t\<close>, in their original order. \<^verbatim>\<open>sendPing\<close> hands the socket one envelope whose
  \<^verbatim>\<open>type\<close> is \<^verbatim>\<open>PING\<close> (and whose data is the time stamp) when the service is
  connected, and hands it nothing otherwise.
\<close>

theorem getMessagesByType_filters_in_order:
  "getMessagesByType t msgs = map data (filter (\<lambda>m. msg_type m = t) msgs)
   \<and> sent (sendPing now ws) =
       sent ws @ (if isConnected ws
                  then [JObj [(''type'', JStr ''PING''), (''data'', JObj [(''timestamp'', JStr now)])]]
                  else [])
   \<and> opt_chain (JObj [(''type'', JStr ''PING''), (''data'', JObj [(''timestamp'', JStr now)])]) ''type''
       = JStr ''PING''"
  by (simp add: getMessagesByType_def foldl_byType_next sendPing_sent)


section \<open>Push channel: reconnection\<close>

lemma connect_fields:
  "timers (connect ws) = timers ws" "reconnectAttempts (connect ws) = reconnectAttempts ws"
  "connects (connect ws) \<le> connects ws + 1" "connects ws \<le> connects (connect ws)"
  by (simp_all add: connect_def)

lemma connect_potential: "potential cfg (connect ws) \<le> potential cfg ws + 1"
  by (simp add: potential_def connect_def)

lemma reconnect_potential: "potential cfg (reconnect cfg ws) = potential cfg ws"
  by (auto simp: potential_def reconnect_def Let_def)

lemma closeObserver_potential: "potential cfg (closeObserver cfg ws) = potential cfg ws"
proof -
  have "potential cfg (ws\<lparr> statusLog := statusLog ws @ [DISCONNECTED], socket := None \<rparr>)
      = potential cfg ws"
    by (simp add: potential_def)
  with reconnect_potential [of cfg "ws\<lparr> statusLog := statusLog ws @ [DISCONNECTED], socket := None \<rparr>"]
  show ?thesis
    by (simp add: closeObserver_def Let_def)
qed

lemma fire_timer_potential: "potential cfg (fire_timer i ws) \<le> potential cfg ws"
proof (cases "i < length (timers ws)")
  case True
  let ?ws' = "ws\<lparr> timers := take i (timers ws) @ drop (Suc i) (timers ws) \<rparr>"
  from True have len: "length (timers ?ws') + 1 = length (timers ws)" by auto
  then have p: "potential cfg ?ws' + 1 = potential cfg ws"
    by (simp add: potential_def)
  have c: "potential cfg (connect ?ws') \<le> potential cfg ?ws' + 1"
    by (rule connect_potential)
  from True p c show ?thesis
    by (auto simp: fire_timer_def Let_def split: timer.splits)
next
  case False
  then show ?thesis by (simp add: fire_timer_def)
qed

lemma ws_step_potential:
  "\<not> is_open e \<Longrightarrow> potential cfg (ws_step cfg ws e) \<le> potential cfg ws"
proof (cases e)
  case EvClose
  then show ?thesis by (simp add: closeObserver_potential)
next
  case (EvTimer i)
  then show ?thesis by (simp add: fire_timer_potential)
qed (simp_all add: potential_def on_error_def on_message_def heartbeat_tick_def sendPing_def send_def)

lemma ws_run_potential:
  "list_all (\<lambda>e. \<not> is_open e) evs \<Longrightarrow> potential cfg (ws_run cfg ws evs) \<le> potential cfg ws"
proof (induction evs arbitrary: ws)
  case Nil
  then show ?case by (simp add: ws_run_def)
next
  case (Cons e evs)
  then have "potential cfg (ws_run cfg (ws_step cfg ws e) evs) \<le> potential cfg (ws_step cfg ws e)"
    by simp
  also from Cons.prems have "\<dots> \<le> potential cfg ws"
    by (simp add: ws_step_potential)
  finally show ?case by (simp add: ws_run_def)
qed

lemma ws_step_connects: "connects ws \<le> connects (ws_step cfg ws e)"
proof (cases e)
  case EvClose
  then show ?thesis by (simp add: closeObserver_def reconnect_def Let_def)
next
  case (EvTimer i)
  then show ?thesis
    using connect_fields(4) [of "ws\<lparr> timers := take i (timers ws) @ drop (Suc i) (timers ws) \<rparr>"]
    by (auto simp: fire_timer_def Let_def split: timer.splits)
qed (simp_all add: openObserver_def on_error_def on_message_def heartbeat_tick_def sendPing_def send_def)

lemma ws_run_connects: "connects ws \<le> connects (ws_run cfg ws evs)"
proof (induction evs arbitrary: ws)
  case Nil
  then show ?case by (simp add: ws_run_def)
next
  case (Cons e evs)
  have "connects ws \<le> connects (ws_step cfg ws e)" by (rule ws_step_connects)
  also have "\<dots> \<le> connects (ws_run cfg (ws_step cfg ws e) evs)" using Cons.IH [of "ws_step cfg ws e"] .
  finally show ?case by (simp add: ws_run_def)
qed

lemma closeObserver_cases:
  "closeObserver cfg ws =
     (if isManualDisconnect ws
      then ws\<lparr> statusLog := statusLog ws @ [DISCONNECTED], socket := None \<rparr>
      else if reconnectAttempts ws \<ge> maxReconnectAttempts cfg
      then ws\<lparr> statusLog := statusLog ws @ [DISCONNECTED, ERROR], socket := None \<rparr>
      else ws\<lparr> statusLog := statusLog ws @ [DISCONNECTED, RECONNECTING], socket := None,
               reconnectAttempts := reconnectAttempts ws + 1,
               timers := timers ws @
                 [ReconnectTimer (of_nat (reconnectInterval cfg) * (3 / 2) ^ reconnectAttempts ws)] \<rparr>)"
  by (simp add: closeObserver_def reconnect_def Let_def)

text \<open>
  C7 (as stated, refuted). The claim has each attempt delayed by a backoff with jitter. The
  delay that \<^verbatim>\<open>reconnect\<close> schedules has no random part: with an interval of 5000 ms the
  third attempt is scheduled after exactly \<open>5000 * 1.5\<^sup>2 = 11250\<close> ms, whatever else the
  state holds.
\<close>

theorem reconnect_jitter_counterexample:
  "timers (reconnect
      \<lparr>reconnectInterval = 5000, maxReconnectAttempts = 10, heartbeatInterval = 30000\<rparr>
      \<lparr>socket = None, reconnectAttempts = 2, isManualDisconnect = False, heartbeatTimer = True,
       statusLog = [], messagesLog = [], sent = [], timers = [], connects = 3\<rparr>)
     = [ReconnectTimer 11250]
   \<and> (11250 :: rat) = 5000 * (3 / 2) ^ 2"
  by (simp add: reconnect_def Let_def power2_eq_square)

text \<open>
  C7 (amended). In every run of the push client in which the socket does not open, the
  connection attempts made, the timers pending and the reconnection attempts left never add
  up to more than at the start: after an unexpected disconnection that follows a successful
  open (attempt counter 0, no timer pending) at most \<^verbatim>\<open>maxReconnectAttempts\<close> further
  connection attempts are made, and once the counter has reached the bound and no timer is
  pending none is made at all. A close that is not manual reports \<^verbatim>\<open>DISCONNECTED\<close> and
  then, below the bound, counts attempt \<open>n\<close>, reports \<^verbatim>\<open>RECONNECTING\<close> and schedules one
  connection after the deterministic delay \<open>reconnectInterval * 1.5\<^bsup>n - 1\<^esup>\<close>, which grows
  by the factor 1.5 from one attempt to the next and has no jitter; at the bound it schedules
  nothing and reports \<^verbatim>\<open>ERROR\<close>.
\<close>

theorem reconnect_bounded_backoff:
  assumes "list_all (\<lambda>e. \<not> is_open e) evs"
  shows "connects (ws_run cfg ws evs) + length (timers (ws_run cfg ws evs))
           + (maxReconnectAttempts cfg - reconnectAttempts (ws_run cfg ws evs))
         \<le> connects ws + length (timers ws) + (maxReconnectAttempts cfg - reconnectAttempts ws)
       \<and> connects ws \<le> connects (ws_run cfg ws evs)
       \<and> closeObserver cfg ws =
           (if isManualDisconnect ws
            then ws\<lparr> statusLog := statusLog ws @ [DISCONNECTED], socket := None \<rparr>
            else if reconnectAttempts ws \<ge> maxReconnectAttempts cfg
            then ws\<lparr> statusLog := statusLog ws @ [DISCONNECTED, ERROR], socket := None \<rparr>
            else ws\<lparr> statusLog := statusLog ws @ [DISCONNECTED, RECONNECTING], socket := None,
                     reconnectAttempts := reconnectAttempts ws + 1,
                     timers := timers ws @
                       [ReconnectTimer
                          (of_nat (reconnectInterval cfg) * (3 / 2) ^ reconnectAttempts ws)] \<rparr>)
       \<and> reconnect cfg ws =
           (if reconnectAttempts ws \<ge> maxReconnectAttempts cfg
            then ws\<lparr> statusLog := statusLog ws @ [ERROR] \<rparr>
            else ws\<lparr> reconnectAttempts := reconnectAttempts ws + 1,
                     statusLog := statusLog ws @ [RECONNECTING],
                     timers := timers ws @
                       [ReconnectTimer
                          (of_nat (reconnectInterval cfg) * (3 / 2) ^ reconnectAttempts ws)] \<rparr>)"
proof -
  from ws_run_potential [OF assms, of cfg ws]
  have bound: "connects (ws_run cfg ws evs) + length (timers (ws_run cfg ws evs))
           + (maxReconnectAttempts cfg - reconnectAttempts (ws_run cfg ws evs))
         \<le> connects ws + length (timers ws) + (maxReconnectAttempts cfg - reconnectAttempts ws)"
    by (simp add: potential_def)
  have mono: "connects ws \<le> connects (ws_run cfg ws evs)"
    by (rule ws_run_connects)
  have re: "reconnect cfg ws =
           (if reconnectAttempts ws \<ge> maxReconnectAttempts cfg
            then ws\<lparr> statusLog := statusLog ws @ [ERROR] \<rparr>
            else ws\<lparr> reconnectAttempts := reconnectAttempts ws + 1,
                     statusLog := statusLog ws @ [RECONNECTING],
                     timers := timers ws @
                       [ReconnectTimer
                          (of_nat (reconnectInterval cfg) * (3 / 2) ^ reconnectAttempts ws)] \<rparr>)"
    by (simp add: reconnect_def Let_def)
  from bound mono closeObserver_cases [of cfg ws] re show ?thesis
    by (intro conjI)
qed

theorem reconnect_bounded_backoff_witness:
  "list_all (\<lambda>e. \<not> is_open e)
     [EvClose, EvTimer 0, EvError, EvClose, EvTimer 0, EvClose, EvTimer 0, EvClose, EvTimer 0, EvClose]
   \<and> connects (ws_run \<lparr>reconnectInterval = 5000, maxReconnectAttempts = 2, heartbeatInterval = 30000\<rparr>
        (openObserver ws_init)
        [EvClose, EvTimer 0, EvError, EvClose, EvTimer 0, EvClose, EvTimer 0, EvClose, EvTimer 0, EvClose])
       \<le> connects (openObserver ws_init) + 2
   \<and> connects (openObserver ws_init) = 1"
proof -
  let ?cfg = "\<lparr>reconnectInterval = 5000, maxReconnectAttempts = 2, heartbeatInterval = 30000\<rparr>"
  let ?evs = "[EvClose, EvTimer 0, EvError, EvClose, EvTimer 0, EvClose, EvTimer 0, EvClose,
               EvTimer 0, EvClose]"
  have h: "list_all (\<lambda>e. \<not> is_open e) ?evs" by simp
  have s: "connects (openObserver ws_init) = 1" "timers (openObserver ws_init) = []"
    "reconnectAttempts (openObserver ws_init) = 0"
    by (simp_all add: openObserver_def ws_init_def connect_def isConnected_def)
  from reconnect_bounded_backoff [OF h, of ?cfg "openObserver ws_init"]
  have "connects (ws_run ?cfg (openObserver ws_init) ?evs)
          + length (timers (ws_run ?cfg (openObserver ws_init) ?evs))
          + (maxReconnectAttempts ?cfg - reconnectAttempts (ws_run ?cfg (openObserver ws_init) ?evs))
        \<le> connects (openObserver ws_init) + length (timers (openObserver ws_init))
          + (maxReconnectAttempts ?cfg - reconnectAttempts (openObserver ws_init))"
    by (rule conjunct1)
  then have "connects (ws_run ?cfg (openObserver ws_init) ?evs)
        \<le> connects (openObserver ws_init) + length (timers (openObserver ws_init))
          + (maxReconnectAttempts ?cfg - reconnectAttempts (openObserver ws_init))"
    by linarith
  also have "\<dots> = connects (openObserver ws_init) + 2"
    by (simp add: s)
  finally have b: "connects (ws_run ?cfg (openObserver ws_init) ?evs)
      \<le> connects (openObserver ws_init) + 2" .
  from h b s(1) show ?thesis by (intro conjI)
qed


section \<open>Probe failures on the success path\<close>

lemma probe_failed_cases:
  "failed outcome \<Longrightarrow> outcome = NoReply \<or> outcome = NoRoute \<or> outcome = BadReply"
  by (cases outcome) (simp_all add: failed_def)

lemma probe_body_failed:
  assumes "failed outcome"
  shows "get_prop (probe_body (probe outcome)) ''is_alive'' = Inr (JBool False)"
    and "get_prop (probe_body (probe outcome)) ''response_time_ms'' = Inr JNull"
  using probe_failed_cases [OF assms] by (auto simp: probe_body_def)

text \<open>
  C4. For every probe that meets an ordinary network failure (no reply within the timeout,
  target unreachable, or a reply that violates the protocol), the probe returns a result with
  \<open>reachable = False\<close> and an error classification, the ping-one action answers with that
  result as a successful response and never as a failed one, and the callers handle it in
  their \<^verbatim>\<open>next\<close> callback: the devices list and the device detail page each show one
  notification saying that the device is down, and the error callback with
  \<^verbatim>\<open>showApiError\<close> is not involved.
\<close>

theorem probe_failure_is_a_result:
  assumes "failed outcome"
  shows "\<not> reachable (probe outcome)
       \<and> latency (probe outcome) = None
       \<and> (\<exists>c. error_class (probe outcome) = Some c)
       \<and> (outcome = NoReply \<longrightarrow> error_class (probe outcome) = Some Timeout)
       \<and> (outcome = NoRoute \<longrightarrow> error_class (probe outcome) = Some Unreachable)
       \<and> ping_one outcome = HttpOk (probe_body (probe outcome))
       \<and> (\<forall>r. ping_one outcome \<noteq> HttpFailed r)
       \<and> pingDevice_devices_next svc name (probe_body (probe outcome))
           = Inr (notify_error svc (JStr (name @ '' is DOWN'')) None)
       \<and> pingDevice_detail_next c svc (probe_body (probe outcome))
           = (c\<lparr> pingResult := probe_body (probe outcome), isPinging := False \<rparr>,
              Inr (notify_error svc (JStr ''Device is DOWN'') None))"
proof -
  from probe_failed_cases [OF assms]
  have p: "\<not> reachable (probe outcome) \<and> latency (probe outcome) = None
       \<and> (\<exists>c. error_class (probe outcome) = Some c)
       \<and> (outcome = NoReply \<longrightarrow> error_class (probe outcome) = Some Timeout)
       \<and> (outcome = NoRoute \<longrightarrow> error_class (probe outcome) = Some Unreachable)"
    by auto
  have o: "ping_one outcome = HttpOk (probe_body (probe outcome))
       \<and> (\<forall>r. ping_one outcome \<noteq> HttpFailed r)"
    by (simp add: ping_one_def)
  have d: "pingDevice_devices_next svc name (probe_body (probe outcome))
           = Inr (notify_error svc (JStr (name @ '' is DOWN'')) None)"
    by (simp add: pingDevice_devices_next_def probe_body_failed [OF assms])
  have t: "pingDevice_detail_next c svc (probe_body (probe outcome))
           = (c\<lparr> pingResult := probe_body (probe outcome), isPinging := False \<rparr>,
              Inr (notify_error svc (JStr ''Device is DOWN'') None))"
    by (simp add: pingDevice_detail_next_def probe_body_failed [OF assms])
  from p o d t show ?thesis by simp
qed

theorem probe_failure_is_a_result_witness:
  "failed NoReply
   \<and> error_class (probe NoReply) = Some Timeout
   \<and> ping_one NoReply = HttpOk (probe_body (probe NoReply))
   \<and> pingDevice_devices_next \<lparr>idCounter = 1, emitted = []\<rparr> ''Core Router 1'' (probe_body (probe NoReply))
       = Inr (notify_error \<lparr>idCounter = 1, emitted = []\<rparr> (JStr (''Core Router 1'' @ '' is DOWN'')) None)"
proof -
  have h: "failed NoReply" by (simp add: failed_def)
  note t = probe_failure_is_a_result [OF h, of "\<lparr>idCounter = 1, emitted = []\<rparr>" "''Core Router 1''"
      "\<lparr>isPinging = True, pingResult = JNull\<rparr>"]
  from t have e: "NoReply = NoReply \<longrightarrow> error_class (probe NoReply) = Some Timeout"
    by (elim conjE)
  then have e': "error_class (probe NoReply) = Some Timeout" by simp
  from t have o: "ping_one NoReply = HttpOk (probe_body (probe NoReply))"
    by (elim conjE)
  from t have d: "pingDevice_devices_next \<lparr>idCounter = 1, emitted = []\<rparr> ''Core Router 1''
       (probe_body (probe NoReply))
       = Inr (notify_error \<lparr>idCounter = 1, emitted = []\<rparr> (JStr (''Core Router 1'' @ '' is DOWN'')) None)"
    by (elim conjE)
  from h e' o d show ?thesis by (intro conjI)
qed


section \<open>Monitor cycle: events and transitions\<close>











section \<open>Monitor cycle: failures and the threshold\<close>








lemma threshold_one_is_plain_diff:
  assumes "threshold t \<le> 1"
  shows "debounce_target net \<lparr>tracked_target = t, consecutive_failures = c\<rparr> =
     (case check_target net t of
        (t', es, ms) \<Rightarrow>
          (\<lparr>tracked_target = t',
            consecutive_failures =
              (if \<not> is_monitored t then c
               else if reachable (probe (net (address t))) then 0 else c + 1)\<rparr>, es, ms))"
  using assms
  by (simp add: debounce_target_def check_target_def Let_def)


section \<open>At most one monitor cycle in flight\<close>

lemma on_trigger_active: "length (active d) \<le> 1 \<Longrightarrow> length (active (on_trigger d src)) \<le> 1"
  by (auto simp: on_trigger_def)

lemma on_advance_active: "length (active (on_advance d i)) \<le> length (active d)"
  by (auto simp: on_advance_def split: option.splits)

lemma driver_step_active:
  "length (active d) \<le> 1 \<Longrightarrow> length (active (driver_step d e)) \<le> 1"
proof (cases e)
  case (Trigger src)
  assume "length (active d) \<le> 1"
  from on_trigger_active [OF this, of src] Trigger show ?thesis by simp
next
  case (Advance i)
  assume "length (active d) \<le> 1"
  with on_advance_active [of d i] Advance show ?thesis by simp
qed

lemma driver_run_active:
  "length (active d) \<le> 1 \<Longrightarrow> length (active (driver_run d evs)) \<le> 1"
proof (induction evs arbitrary: d)
  case Nil
  then show ?case by (simp add: driver_run_def)
next
  case (Cons e evs)
  from Cons.prems have "length (active (driver_step d e)) \<le> 1" by (rule driver_step_active)
  from Cons.IH [OF this] show ?case by (simp add: driver_run_def)
qed

lemma driver_step_account:
  assumes "started d = completed d + length (active d)"
  shows "started (driver_step d e) = completed (driver_step d e) + length (active (driver_step d e))"
proof (cases e)
  case (Trigger src)
  with assms show ?thesis by (simp add: on_trigger_def)
next
  case (Advance i)
  with assms show ?thesis by (auto simp: on_advance_def split: option.splits)
qed

lemma driver_run_account:
  "started d = completed d + length (active d) \<Longrightarrow>
     started (driver_run d evs) = completed (driver_run d evs) + length (active (driver_run d evs))"
proof (induction evs arbitrary: d)
  case Nil
  then show ?case by (simp add: driver_run_def)
next
  case (Cons e evs)
  from Cons.prems have "started (driver_step d e)
      = completed (driver_step d e) + length (active (driver_step d e))"
    by (rule driver_step_account)
  from Cons.IH [OF this] show ?case by (simp add: driver_run_def)
qed

lemma runMonitoringCycle_calls:
  "(runMonitoringCycle baseUrl ^^ n) sent_requests
     = sent_requests @ replicate n (api_runMonitoringCycle baseUrl)"
  by (induction n arbitrary: sent_requests)
     (simp_all add: runMonitoringCycle_def replicate_append_same)

lemma triggers_while_running:
  assumes "active d \<noteq> []"
  shows "driver_run d (replicate n (Trigger src)) = d\<lparr> declined := declined d + n \<rparr>"
  using assms
proof (induction n arbitrary: d)
  case 0
  then show ?case by (simp add: driver_run_def)
next
  case (Suc n)
  from Suc.prems have a: "active (d\<lparr> declined := declined d + 1 \<rparr>) \<noteq> []" by simp
  from Suc.IH [OF a] Suc.prems show ?case
    by (simp add: driver_run_def on_trigger_def)
qed

text \<open>
  C3. Whatever triggers arrive, from the timer or from manual run-cycle calls, and however
  they interleave with the progress of the run in flight, at most one monitor cycle is active
  after every event, every run started is either completed or the one in flight, and a
  trigger that arrives while a cycle is running starts nothing: it is counted as coalesced or
  rejected. The dashboard's \<^verbatim>\<open>runMonitoringCycle\<close> sends one request per call, with no
  guard of its own, and any number of such calls while a cycle is in flight leaves that cycle
  the only one.
\<close>

theorem at_most_one_cycle_active:
  assumes "length (active d) \<le> 1"
  shows "length (active (driver_run d evs)) \<le> 1
       \<and> (started d = completed d + length (active d) \<longrightarrow>
            started (driver_run d evs)
              = completed (driver_run d evs) + length (active (driver_run d evs)))
       \<and> (active d \<noteq> [] \<longrightarrow>
            driver_step d (Trigger src) = d\<lparr> declined := declined d + 1 \<rparr>
          \<and> driver_run d (map run_cycle_endpoint ((runMonitoringCycle baseUrl ^^ n) []))
              = d\<lparr> declined := declined d + n \<rparr>)
       \<and> (runMonitoringCycle baseUrl ^^ n) [] = replicate n (api_runMonitoringCycle baseUrl)"
proof -
  have one: "length (active (driver_run d evs)) \<le> 1"
    using assms by (rule driver_run_active)
  have acc: "started (driver_run d evs)
              = completed (driver_run d evs) + length (active (driver_run d evs))"
    if "started d = completed d + length (active d)"
    using that by (rule driver_run_account)
  have calls: "(runMonitoringCycle baseUrl ^^ n) [] = replicate n (api_runMonitoringCycle baseUrl)"
    using runMonitoringCycle_calls [where baseUrl = baseUrl and n = n and sent_requests = "[]"] by simp
  have dec1: "driver_step d (Trigger src) = d\<lparr> declined := declined d + 1 \<rparr>"
    if "active d \<noteq> []"
    using that by (simp add: on_trigger_def)
  have decn: "driver_run d (map run_cycle_endpoint ((runMonitoringCycle baseUrl ^^ n) []))
              = d\<lparr> declined := declined d + n \<rparr>"
    if "active d \<noteq> []"
    using triggers_while_running [OF that, where n = n and src = ManualTrigger]
    by (simp add: calls run_cycle_endpoint_def)
  show ?thesis
    apply (intro conjI impI)
        apply (rule one)
       apply (erule acc)
      apply (erule dec1)
     apply (erule decn)
    apply (rule calls)
    done
qed

theorem at_most_one_cycle_active_witness:
  "length (active \<lparr>active = [Probing], started = 1, declined = 0, completed = 0\<rparr>) \<le> 1
   \<and> started \<lparr>active = [Probing], started = 1, declined = 0, completed = 0\<rparr>
       = completed \<lparr>active = [Probing], started = 1, declined = 0, completed = 0\<rparr>
         + length (active \<lparr>active = [Probing], started = 1, declined = 0, completed = 0\<rparr>)
   \<and> active \<lparr>active = [Probing], started = 1, declined = 0, completed = 0\<rparr> \<noteq> []
   \<and> length (active (driver_run \<lparr>active = [Probing], started = 1, declined = 0, completed = 0\<rparr>
        [Trigger ManualTrigger, Trigger TimerTrigger, Advance 0, Trigger ManualTrigger,
         Advance 0, Advance 0, Trigger TimerTrigger, Trigger ManualTrigger])) \<le> 1
   \<and> driver_run \<lparr>active = [Probing], started = 1, declined = 0, completed = 0\<rparr>
        (map run_cycle_endpoint ((runMonitoringCycle ''/api/v1'' ^^ 3) []))
       = \<lparr>active = [Probing], started = 1, declined = 3, completed = 0\<rparr>"
proof -
  let ?d = "\<lparr>active = [Probing], started = 1, declined = 0, completed = 0\<rparr>"
  let ?evs = "[Trigger ManualTrigger, Trigger TimerTrigger, Advance 0, Trigger ManualTrigger,
         Advance 0, Advance 0, Trigger TimerTrigger, Trigger ManualTrigger]"
  have h1: "length (active ?d) \<le> 1" by simp
  have h2: "started ?d = completed ?d + length (active ?d)" by simp
  have h3: "active ?d \<noteq> []" by simp
  note t = at_most_one_cycle_active [OF h1, where evs = ?evs and src = ManualTrigger
      and baseUrl = "''/api/v1''" and n = 3]
  note one = t [THEN conjunct1]
  note dec = t [THEN conjunct2, THEN conjunct2, THEN conjunct1, THEN mp, OF h3, THEN conjunct2]
  have dec': "driver_run ?d (map run_cycle_endpoint ((runMonitoringCycle ''/api/v1'' ^^ 3) []))
       = \<lparr>active = [Probing], started = 1, declined = 3, completed = 0\<rparr>"
    by (simp only: dec) simp
  show ?thesis
    by (intro conjI) (rule h1 h2 h3 one dec')+
qed


end
